theory Spec2Isabelle
  imports Main "HOL-Library.Sublist"
begin

section \<open>JavaScript primitives used by the component\<close>

text \<open>
  \<^verbatim>\<open>String.prototype.includes\<close>: the pattern occurs somewhere in the string.
\<close>

fun str_includes :: "string \<Rightarrow> string \<Rightarrow> bool" where
  "str_includes [] p = (p = [])"
| "str_includes (c # cs) p = (prefix p (c # cs) \<or> str_includes cs p)"

text \<open>A string prop as the host may pass it: omitted, \<^verbatim>\<open>null\<close>, or a string.\<close>

datatype js_string = Undefined | Null | Str string

text \<open>
  Interpolation into a template literal: \<^verbatim>\<open>undefined\<close> and \<^verbatim>\<open>null\<close> print as these
  words.
\<close>

fun interpolate :: "js_string \<Rightarrow> string" where
  "interpolate Undefined = ''undefined''"
| "interpolate Null = ''null''"
| "interpolate (Str s) = s"

text \<open>Truthiness: \<^verbatim>\<open>undefined\<close>, \<^verbatim>\<open>null\<close> and the empty string are falsy.\<close>

fun truthy :: "js_string \<Rightarrow> bool" where
  "truthy Undefined = False"
| "truthy Null = False"
| "truthy (Str s) = (s \<noteq> [])"

section \<open>Props, requests and responses\<close>

text \<open>
  The props. \<open>imageTypes_prop\<close> is \<open>None\<close> when the host omits \<^verbatim>\<open>imageTypes\<close>; the
  component then sees the default of its parameter list.
\<close>

record config =
  familyAcc :: js_string
  imageTypes_prop :: "string list option"
  apiBaseUrl :: string
  varnaEnabled :: bool
  showLegend :: bool
  showDescription :: bool

definition DEFAULT_IMAGE_TYPES :: "string list" where
  "DEFAULT_IMAGE_TYPES =
     [''rscape'', ''cons'', ''norm'', ''cov'', ''ent'', ''maxcm'', ''fcbp'', ''rchie'']"

text \<open>\<^verbatim>\<open>imageTypes\<close> as destructured by the component.\<close>

definition imageTypes :: "config \<Rightarrow> string list" where
  "imageTypes cfg =
     (case imageTypes_prop cfg of None \<Rightarrow> DEFAULT_IMAGE_TYPES | Some types \<Rightarrow> types)"

datatype http_method = GET | HEAD

datatype request = Fetch http_method string

text \<open>
  What the component reads of a response: \<^verbatim>\<open>response.ok\<close>, \<^verbatim>\<open>response.status\<close>,
  the outcome of \<^verbatim>\<open>await response.text()\<close> (\<open>None\<close> when that promise rejects) and
  \<^verbatim>\<open>response.headers.get('content-type')\<close> (\<open>None\<close> for \<^verbatim>\<open>null\<close>).
\<close>

record response =
  ok :: bool
  status :: nat
  body :: "string option"
  content_type :: "string option"

text \<open>
  The remote service. A request is answered depending on the requests issued before it
  (the history); \<open>None\<close> is a rejected \<^verbatim>\<open>fetch\<close> promise (transport failure).
\<close>

type_synonym network = "request list \<Rightarrow> request \<Rightarrow> response option"

definition buildImageUrl :: "config \<Rightarrow> string \<Rightarrow> string" where
  "buildImageUrl cfg type =
     apiBaseUrl cfg @ ''/'' @ interpolate (familyAcc cfg) @ ''/image/'' @ type"

definition buildVarnaUrl :: "config \<Rightarrow> string" where
  "buildVarnaUrl cfg = apiBaseUrl cfg @ ''/'' @ interpolate (familyAcc cfg) @ ''/varna''"

section \<open>Component state\<close>

datatype image_status = Loading | Loaded | Error

record stats =
  basepairs :: nat
  significantBasepairs :: nat

text \<open>
  Pointer and box coordinates are whole CSS pixels. \<open>None\<close> stands for a coordinate the
  object does not have yet (\<^verbatim>\<open>undefined\<close>).
\<close>

record loupe =
  loupe_x :: int
  loupe_y :: int
  loupe_bgX :: "int option"
  loupe_bgY :: "int option"
  loupe_visible :: bool

record state =
  selectedImageType :: string
  svgContent :: string
  imageStatus :: image_status
  errorMessage :: string
  availableTypes :: "string list"
  rscapeStats :: "stats option"
  svgToggleState :: nat
  loupePosition :: loupe
  isImageNotAvailable :: bool
  rscapeCykContent :: string
  rscapeCykStatus :: image_status
  rscapeCykStats :: "stats option"
  isRscapeCykNotAvailable :: bool

text \<open>
  The initial values of the \<^verbatim>\<open>useState\<close> hooks. The selected type starts as
  \<^verbatim>\<open>imageTypes[0] || 'rscape'\<close>. The tooltip, which only its two pointer handlers read and
  write, is left out.
\<close>

definition initial_state :: "config \<Rightarrow> state" where
  "initial_state cfg =
     \<lparr> selectedImageType =
         (case imageTypes cfg of [] \<Rightarrow> ''rscape''
          | t # _ \<Rightarrow> if t = [] then ''rscape'' else t),
       svgContent = [],
       imageStatus = Loading,
       errorMessage = [],
       availableTypes = [],
       rscapeStats = None,
       svgToggleState = 1,
       loupePosition = \<lparr> loupe_x = 0, loupe_y = 0, loupe_bgX = None, loupe_bgY = None,
                         loupe_visible = False \<rparr>,
       isImageNotAvailable = False,
       rscapeCykContent = [],
       rscapeCykStatus = Loading,
       rscapeCykStats = None,
       isRscapeCykNotAvailable = False \<rparr>"

section \<open>Loading\<close>

record load_result =
  content :: string
  isAvailable :: bool
  isSvg :: bool

text \<open>
  \<^verbatim>\<open>loadImage\<close>: one GET; every exception of the \<^verbatim>\<open>try\<close> block (rejected fetch, status
  not ok, rejected \<^verbatim>\<open>text()\<close>, neither vector markup nor PNG) ends in \<^verbatim>\<open>return null\<close>.
\<close>

definition loadImage ::
  "network \<Rightarrow> config \<Rightarrow> string \<Rightarrow> request list \<Rightarrow> load_result option \<times> request list" where
  "loadImage net cfg type hist =
     (let req = Fetch GET (buildImageUrl cfg type);
          result =
            (case net hist req of
               None \<Rightarrow> None
             | Some resp \<Rightarrow>
                 if \<not> ok resp then None
                 else (case body resp of
                         None \<Rightarrow> None
                       | Some text \<Rightarrow>
                           let contentType =
                                 (case content_type resp of None \<Rightarrow> [] | Some c \<Rightarrow> c);
                               is_svg = str_includes text ''<svg'';
                               is_png = str_includes contentType ''image/png''
                           in if \<not> is_svg \<and> \<not> is_png then None
                              else Some \<lparr> content = text,
                                          isAvailable = (is_svg \<or> type = ''rchie''),
                                          isSvg = is_svg \<rparr>))
      in (result, hist @ [req]))"

definition no_images_message :: string where
  "no_images_message = ''No secondary structure images available for this family.''"

text \<open>
  The \<^verbatim>\<open>for (const type of types)\<close> loop of \<^verbatim>\<open>tryLoadImage\<close>. The result object of
  \<^verbatim>\<open>loadImage\<close> is truthy whenever it is not \<^verbatim>\<open>null\<close>.
\<close>

fun tryLoadImage_loop ::
  "network \<Rightarrow> config \<Rightarrow> string list \<Rightarrow> state \<times> request list \<Rightarrow> bool \<times> state \<times> request list" where
  "tryLoadImage_loop net cfg [] (s, hist) =
     (False, s\<lparr> imageStatus := Error, errorMessage := no_images_message \<rparr>, hist)"
| "tryLoadImage_loop net cfg (type # types) (s, hist) =
     (case loadImage net cfg type hist of
        (Some result, hist') \<Rightarrow>
          (True,
           s\<lparr> svgContent := content result,
              selectedImageType := type,
              isImageNotAvailable := \<not> isAvailable result,
              imageStatus := Loaded \<rparr>,
           hist')
      | (None, hist') \<Rightarrow> tryLoadImage_loop net cfg types (s, hist'))"

definition tryLoadImage ::
  "network \<Rightarrow> config \<Rightarrow> string list \<Rightarrow> state \<times> request list \<Rightarrow> bool \<times> state \<times> request list" where
  "tryLoadImage net cfg types sl =
     (case sl of (s, hist) \<Rightarrow>
        tryLoadImage_loop net cfg types
          (s\<lparr> imageStatus := Loading, isImageNotAvailable := False \<rparr>, hist))"

text \<open>
  \<^verbatim>\<open>checkImageAvailability\<close>: one HEAD request; \<^verbatim>\<open>response.ok\<close>, and \<^verbatim>\<open>false\<close> when
  the fetch rejects.
\<close>

definition checkImageAvailability ::
  "network \<Rightarrow> config \<Rightarrow> string \<Rightarrow> request list \<Rightarrow> bool \<times> request list" where
  "checkImageAvailability net cfg type hist =
     (let req = Fetch HEAD (buildImageUrl cfg type)
      in ((case net hist req of None \<Rightarrow> False | Some resp \<Rightarrow> ok resp), hist @ [req]))"

definition DROPDOWN_IMAGE_TYPES :: "string list" where
  "DROPDOWN_IMAGE_TYPES =
     [''rscape'', ''cons'', ''fcbp'', ''cov'', ''ent'', ''maxcm'', ''norm'', ''rchie'']"

text \<open>\<^verbatim>\<open>imageTypes.filter(t => DROPDOWN_IMAGE_TYPES.includes(t))\<close>\<close>

definition typesToCheck :: "config \<Rightarrow> string list" where
  "typesToCheck cfg = filter (\<lambda>t. t \<in> set DROPDOWN_IMAGE_TYPES) (imageTypes cfg)"

text \<open>The probing loop of \<^verbatim>\<open>initializeImages\<close>, with its accumulator \<^verbatim>\<open>available\<close>.\<close>

fun availability_loop ::
  "network \<Rightarrow> config \<Rightarrow> string list \<Rightarrow> string list \<times> request list \<Rightarrow> string list \<times> request list" where
  "availability_loop net cfg [] (available, hist) = (available, hist)"
| "availability_loop net cfg (type # types) (available, hist) =
     (case checkImageAvailability net cfg type hist of
        (isAvail, hist') \<Rightarrow>
          availability_loop net cfg types
            (if isAvail then available @ [type] else available, hist'))"

definition initializeImages ::
  "network \<Rightarrow> config \<Rightarrow> state \<times> request list \<Rightarrow> state \<times> request list" where
  "initializeImages net cfg sl =
     (case sl of (s, hist) \<Rightarrow>
        (case availability_loop net cfg (typesToCheck cfg) ([], hist) of
           (available, hist1) \<Rightarrow>
             let s1 = s\<lparr> availableTypes := available \<rparr>
             in if length available > 0
                then snd (tryLoadImage net cfg available (s1, hist1))
                else (s1\<lparr> imageStatus := Error, errorMessage := no_images_message \<rparr>,
                      hist1)))"

text \<open>
  The body of the initial-load effect: \<^verbatim>\<open>initializeImages\<close> is only called when
  \<^verbatim>\<open>familyAcc && imageTypes.length > 0\<close>.
\<close>

definition initial_load_effect ::
  "network \<Rightarrow> config \<Rightarrow> state \<times> request list \<Rightarrow> state \<times> request list" where
  "initial_load_effect net cfg sl =
     (if truthy (familyAcc cfg) \<and> length (imageTypes cfg) > 0
      then initializeImages net cfg sl else sl)"

text \<open>\<^verbatim>\<open>loadRscapeCyk\<close>: the companion rendering of the R-scape panel.\<close>

definition loadRscapeCyk ::
  "network \<Rightarrow> config \<Rightarrow> state \<times> request list \<Rightarrow> state \<times> request list" where
  "loadRscapeCyk net cfg sl =
     (case sl of (s, hist) \<Rightarrow>
        let s1 = s\<lparr> rscapeCykStatus := Loading, isRscapeCykNotAvailable := False,
                    rscapeCykStats := None \<rparr>
        in (case loadImage net cfg ''rscape-cacofold'' hist of
              (Some result, hist') \<Rightarrow>
                (s1\<lparr> rscapeCykContent := content result,
                     isRscapeCykNotAvailable := \<not> isAvailable result,
                     rscapeCykStatus := Loaded \<rparr>, hist')
            | (None, hist') \<Rightarrow>
                (s1\<lparr> rscapeCykStatus := Error, isRscapeCykNotAvailable := True \<rparr>, hist')))"

section \<open>The diagram's document tree\<close>

text \<open>
  An element carries its tag, its attributes, the declarations of its inline style and
  its children. \<^verbatim>\<open>dataset.tooltip\<close> is the attribute \<^verbatim>\<open>data-tooltip\<close>.
\<close>

datatype node =
    Text string
  | Element string "(string \<times> string) list" "(string \<times> string) list" "node list"

fun tagName :: "node \<Rightarrow> string" where
  "tagName (Text s) = []"
| "tagName (Element t a st cs) = t"

fun attributes :: "node \<Rightarrow> (string \<times> string) list" where
  "attributes (Text s) = []"
| "attributes (Element t a st cs) = a"

fun inline_style :: "node \<Rightarrow> (string \<times> string) list" where
  "inline_style (Text s) = []"
| "inline_style (Element t a st cs) = st"

fun childNodes :: "node \<Rightarrow> node list" where
  "childNodes (Text s) = []"
| "childNodes (Element t a st cs) = cs"

fun set_entry :: "string \<Rightarrow> string \<Rightarrow> (string \<times> string) list \<Rightarrow> (string \<times> string) list" where
  "set_entry k v [] = [(k, v)]"
| "set_entry k v (kv # rest) =
     (if fst kv = k then (k, v) # rest else kv # set_entry k v rest)"

definition getAttribute :: "node \<Rightarrow> string \<Rightarrow> string option" where
  "getAttribute e name = map_of (attributes e) name"

fun setAttribute :: "node \<Rightarrow> string \<Rightarrow> string \<Rightarrow> node" where
  "setAttribute (Text s) name v = Text s"
| "setAttribute (Element t a st cs) name v = Element t (set_entry name v a) st cs"

definition getStyle :: "node \<Rightarrow> string \<Rightarrow> string option" where
  "getStyle e prop = map_of (inline_style e) prop"

fun setStyle :: "node \<Rightarrow> string \<Rightarrow> string \<Rightarrow> node" where
  "setStyle (Text s) prop v = Text s"
| "setStyle (Element t a st cs) prop v = Element t a (set_entry prop v st) cs"

text \<open>The elements of a forest, in document order.\<close>

fun elements :: "node list \<Rightarrow> node list" where
  "elements [] = []"
| "elements (Text s # ns) = elements ns"
| "elements (Element t a st cs # ns) = Element t a st cs # elements cs @ elements ns"

fun text_of :: "node list \<Rightarrow> string" where
  "text_of [] = []"
| "text_of (Text s # ns) = s @ text_of ns"
| "text_of (Element t a st cs # ns) = text_of cs @ text_of ns"

definition textContent :: "node \<Rightarrow> string" where
  "textContent e = text_of [e]"

text \<open>\<^verbatim>\<open>svg.querySelectorAll(tag)\<close>: the descendants of \<open>svg\<close> with that tag.\<close>

definition querySelectorAll :: "string \<Rightarrow> node \<Rightarrow> node list" where
  "querySelectorAll tag svg = filter (\<lambda>e. tagName e = tag) (elements (childNodes svg))"

definition has_id :: "string \<Rightarrow> node \<Rightarrow> bool" where
  "has_id i e = (getAttribute e ''id'' = Some i)"

text \<open>\<^verbatim>\<open>svg.querySelector('#' + i)\<close>: the first descendant with that id.\<close>

definition querySelector_id :: "string \<Rightarrow> node \<Rightarrow> node option" where
  "querySelector_id i svg = find (has_id i) (elements (childNodes svg))"

text \<open>
  \<^verbatim>\<open>nodeList.forEach(h)\<close> for a list selected by \<open>p\<close>, where the callback \<open>h\<close> reads the
  element (attributes, text content) and writes only its own attributes and inline
  style: every selected element is replaced by what the callback makes of it, its
  children being visited in turn.
\<close>

fun for_each :: "(node \<Rightarrow> bool) \<Rightarrow> (node \<Rightarrow> node) \<Rightarrow> node list \<Rightarrow> node list" where
  "for_each p h [] = []"
| "for_each p h (Text s # ns) = Text s # for_each p h ns"
| "for_each p h (Element t a st cs # ns) =
     (let e = (if p (Element t a st cs) then h (Element t a st cs) else Element t a st cs)
      in Element (tagName e) (attributes e) (inline_style e) (for_each p h cs))
     # for_each p h ns"

text \<open>
  An update of the first element, in document order, that satisfies \<open>p\<close>: it is replaced
  by \<open>f\<close> of it, or removed with its subtree when \<open>f\<close> gives \<open>None\<close>. The flag tells
  whether there was one.
\<close>

fun update_first ::
  "(node \<Rightarrow> bool) \<Rightarrow> (node \<Rightarrow> node option) \<Rightarrow> node list \<Rightarrow> node list \<times> bool" where
  "update_first p f [] = ([], False)"
| "update_first p f (Text s # ns) =
     (case update_first p f ns of (ns', found) \<Rightarrow> (Text s # ns', found))"
| "update_first p f (Element t a st cs # ns) =
     (if p (Element t a st cs)
      then ((case f (Element t a st cs) of None \<Rightarrow> ns | Some e \<Rightarrow> e # ns), True)
      else (case update_first p f cs of
              (cs', found) \<Rightarrow>
                if found then (Element t a st cs' # ns, True)
                else (case update_first p f ns of
                        (ns', found') \<Rightarrow> (Element t a st cs # ns', found'))))"

section \<open>Annotation of an R-scape diagram\<close>

definition RSCAPE_COLORS_significant :: string where
  "RSCAPE_COLORS_significant = ''#31a354''"

definition RSCAPE_COLORS_conserved97 :: string where
  "RSCAPE_COLORS_conserved97 = ''#d90000''"

definition RSCAPE_COLORS_conserved90 :: string where
  "RSCAPE_COLORS_conserved90 = ''#000000''"

definition RSCAPE_COLORS_conserved75 :: string where
  "RSCAPE_COLORS_conserved75 = ''#807b88''"

definition RSCAPE_COLORS_conserved50 :: string where
  "RSCAPE_COLORS_conserved50 = ''#ffffff''"

text \<open>The callback of \<^verbatim>\<open>tspans.forEach\<close>. The label \<^verbatim>\<open>5'\<close> ends with an apostrophe.\<close>

definition tspan_title :: "node \<Rightarrow> string" where
  "tspan_title tspan =
     (let fill = getAttribute tspan ''fill'';
          nucleotide = textContent tspan;
          displayNucleotide =
            (if nucleotide = ''R'' then ''G or A''
             else if nucleotide = ''Y'' then ''C or U'' else nucleotide)
      in if fill = Some RSCAPE_COLORS_conserved97 then displayNucleotide @ '' present >97%''
         else if fill = Some RSCAPE_COLORS_conserved90 \<and> nucleotide \<noteq> [CHR ''5'', CHR 0x27]
           then displayNucleotide @ '' present 90-97%''
         else if fill = Some RSCAPE_COLORS_conserved75 then displayNucleotide @ '' present 75-90%''
         else if fill = Some RSCAPE_COLORS_conserved50 then displayNucleotide @ '' present 50-75%''
         else [])"

definition set_tooltip :: "string \<Rightarrow> node \<Rightarrow> node" where
  "set_tooltip title e =
     (if title \<noteq> []
      then setAttribute (setStyle e ''cursor'' ''pointer'') ''data-tooltip'' title
      else e)"

definition annotate_tspan :: "node \<Rightarrow> node" where
  "annotate_tspan tspan = set_tooltip (tspan_title tspan) tspan"

text \<open>
  The callback of \<^verbatim>\<open>paths.forEach\<close>: the title it computes, and what it does to the two
  counters.
\<close>

definition path_title :: "node \<Rightarrow> string" where
  "path_title path =
     (let fill = getAttribute path ''fill''
      in if fill = Some RSCAPE_COLORS_significant then ''Significant basepair''
         else if fill = Some RSCAPE_COLORS_conserved97 then ''Nucleotide present 97%''
         else if fill = Some RSCAPE_COLORS_conserved90 then ''Nucleotide present 90%''
         else if fill = Some RSCAPE_COLORS_conserved75 then ''Nucleotide present 75%''
         else if fill = Some RSCAPE_COLORS_conserved50 then ''Nucleotide present 50%''
         else [])"

definition annotate_path :: "node \<Rightarrow> node" where
  "annotate_path path = set_tooltip (path_title path) path"

definition count_path :: "stats \<Rightarrow> node \<Rightarrow> stats" where
  "count_path c path =
     (let c1 = (if getAttribute path ''fill'' = Some RSCAPE_COLORS_significant
                then c\<lparr> significantBasepairs := significantBasepairs c + 1 \<rparr> else c)
      in if getAttribute path ''stroke-width'' = Some ''1.44''
         then c1\<lparr> basepairs := basepairs c1 + 1 \<rparr> else c1)"

text \<open>
  \<^verbatim>\<open>processRscapeSvg\<close>. The argument is \<^verbatim>\<open>containerRef.current?.querySelector('svg')\<close>;
  without an element the function returns before \<^verbatim>\<open>setStats\<close>. The result is the element
  after the pass and the argument of \<^verbatim>\<open>setStats\<close>.
\<close>

definition processRscapeSvg :: "node option \<Rightarrow> node option \<times> stats option" where
  "processRscapeSvg svgElement =
     (case svgElement of
        None \<Rightarrow> (None, None)
      | Some (Text s) \<Rightarrow> (Some (Text s), Some \<lparr> basepairs = 0, significantBasepairs = 0 \<rparr>)
      | Some (Element t a st cs) \<Rightarrow>
          let cs1 = for_each (\<lambda>e. tagName e = ''tspan'') annotate_tspan cs;
              paths = querySelectorAll ''path'' (Element t a st cs1);
              counts = foldl count_path \<lparr> basepairs = 0, significantBasepairs = 0 \<rparr> paths;
              cs2 = for_each (\<lambda>e. tagName e = ''path'') annotate_path cs1;
              cs3 = fst (update_first (has_id ''text1000'') (\<lambda>e. None) cs2)
          in (Some (Element t a st cs3), Some counts))"

section \<open>The toggle cycle\<close>

text \<open>\<^verbatim>\<open>if (el) el.style.visibility = v\<close> for \<^verbatim>\<open>el = svgElement.querySelector('#' + i)\<close>.\<close>

fun set_visibility :: "string \<Rightarrow> string \<Rightarrow> node \<Rightarrow> node" where
  "set_visibility i v (Text s) = Text s"
| "set_visibility i v (Element t a st cs) =
     Element t a st
       (fst (update_first (has_id i) (\<lambda>e. Some (setStyle e ''visibility'' v)) cs))"

definition show_layers :: "string \<Rightarrow> string \<Rightarrow> string \<Rightarrow> node \<Rightarrow> node" where
  "show_layers seq_v lines_v pairs_v svg =
     set_visibility ''pairs'' pairs_v
       (set_visibility ''outline'' lines_v (set_visibility ''seq'' seq_v svg))"

definition handleSvgClick :: "state \<Rightarrow> node option \<Rightarrow> state \<times> node option" where
  "handleSvgClick s svgElement =
     (if selectedImageType s = ''rscape'' \<or> selectedImageType s = ''rchie'' then (s, svgElement)
      else (case svgElement of
              None \<Rightarrow> (s, svgElement)
            | Some svg \<Rightarrow>
                let seq = querySelector_id ''seq'' svg;
                    lines = querySelector_id ''outline'' svg;
                    pairs = querySelector_id ''pairs'' svg
                in if seq = None \<and> lines = None \<and> pairs = None then (s, svgElement)
                   else
                     let newState = (if svgToggleState s = 3 then 1 else svgToggleState s + 1);
                         svg' =
                           (if newState = 1 then show_layers ''visible'' ''visible'' ''visible'' svg
                            else if newState = 2
                              then show_layers ''hidden'' ''visible'' ''visible'' svg
                            else if newState = 3
                              then show_layers ''visible'' ''hidden'' ''hidden'' svg
                            else svg)
                     in (s\<lparr> svgToggleState := newState \<rparr>, Some svg')))"

text \<open>The inline visibility of the first descendant with a given id.\<close>

definition visibility_of :: "string \<Rightarrow> node \<Rightarrow> string option" where
  "visibility_of i svg =
     (case querySelector_id i svg of None \<Rightarrow> None | Some e \<Rightarrow> getStyle e ''visibility'')"

section \<open>Pan/zoom instances\<close>

text \<open>
  The two refs that hold pan/zoom instances, and the instances that are alive: created
  by \<^verbatim>\<open>svgPanZoom\<close> and not yet destroyed, each with the slot whose container it was
  created for.
\<close>

datatype slot = MainSlot | CykSlot

record viewports =
  panZoomInstanceRef :: "nat option"
  panZoomCykInstanceRef :: "nat option"
  live :: "(slot \<times> nat) list"
  next_instance :: nat

definition initial_viewports :: viewports where
  "initial_viewports =
     \<lparr> panZoomInstanceRef = None, panZoomCykInstanceRef = None, live = [], next_instance = 0 \<rparr>"

definition destroy :: "nat \<Rightarrow> viewports \<Rightarrow> viewports" where
  "destroy i v = v\<lparr> live := filter (\<lambda>e. snd e \<noteq> i) (live v) \<rparr>"

fun ref_get :: "slot \<Rightarrow> viewports \<Rightarrow> nat option" where
  "ref_get MainSlot v = panZoomInstanceRef v"
| "ref_get CykSlot v = panZoomCykInstanceRef v"

fun ref_set :: "slot \<Rightarrow> nat option \<Rightarrow> viewports \<Rightarrow> viewports" where
  "ref_set MainSlot r v = v\<lparr> panZoomInstanceRef := r \<rparr>"
| "ref_set CykSlot r v = v\<lparr> panZoomCykInstanceRef := r \<rparr>"

text \<open>
  \<^verbatim>\<open>if (ref.current) { ref.current.destroy(); ref.current = null; }\<close>
\<close>

definition release :: "slot \<Rightarrow> viewports \<Rightarrow> viewports" where
  "release sl v =
     (case ref_get sl v of None \<Rightarrow> v | Some i \<Rightarrow> ref_set sl None (destroy i v))"

text \<open>The cleanup of both slots (type switch and unmount).\<close>

definition release_all :: "viewports \<Rightarrow> viewports" where
  "release_all v = release CykSlot (release MainSlot v)"

section \<open>Switching the selected type\<close>

definition handleImageTypeChange ::
  "network \<Rightarrow> config \<Rightarrow> string \<Rightarrow> state \<times> viewports \<times> request list \<Rightarrow>
   state \<times> viewports \<times> request list" where
  "handleImageTypeChange net cfg type svl =
     (case svl of (s, v, hist) \<Rightarrow>
        if type = selectedImageType s then (s, v, hist)
        else
          let v1 = release_all v;
              s1 = s\<lparr> imageStatus := Loading,
                      selectedImageType := type,
                      rscapeStats := None,
                      rscapeCykStats := None,
                      isImageNotAvailable := False,
                      rscapeCykContent := [],
                      rscapeCykStatus := Loading \<rparr>
          in (case loadImage net cfg type hist of
                (Some result, hist') \<Rightarrow>
                  (s1\<lparr> svgContent := content result,
                       isImageNotAvailable := \<not> isAvailable result,
                       imageStatus := Loaded \<rparr>, v1, hist')
              | (None, hist') \<Rightarrow>
                  (s1\<lparr> imageStatus := Error,
                       errorMessage := ''Failed to load '' @ type @ '' image.'' \<rparr>,
                   v1, hist')))"

text \<open>
  The effect with dependency \<^verbatim>\<open>[selectedImageType]\<close>: after a commit in which the selected
  type differs from the one of the previous commit, the toggle phase is set to 1.
\<close>

definition toggle_reset_effect :: "state \<Rightarrow> state \<Rightarrow> state" where
  "toggle_reset_effect prev cur =
     (if selectedImageType cur \<noteq> selectedImageType prev
      then cur\<lparr> svgToggleState := 1 \<rparr> else cur)"

section \<open>What is rendered\<close>

definition isRscapeType :: "state \<Rightarrow> bool" where
  "isRscapeType s = (selectedImageType s = ''rscape'')"

definition isRchieType :: "state \<Rightarrow> bool" where
  "isRchieType s = (selectedImageType s = ''rchie'')"

definition canToggle :: "state \<Rightarrow> bool" where
  "canToggle s = (\<not> isRscapeType s \<and> \<not> isRchieType s \<and> str_includes (svgContent s) ''<svg'')"

definition dropdownTypes :: "state \<Rightarrow> string list" where
  "dropdownTypes s = filter (\<lambda>t. t \<in> set DROPDOWN_IMAGE_TYPES) (availableTypes s)"

text \<open>The type selector: rendered, and enabled.\<close>

definition select_rendered :: "state \<Rightarrow> bool" where
  "select_rendered s = (length (dropdownTypes s) > 1)"

definition select_disabled :: "state \<Rightarrow> bool" where
  "select_disabled s = (imageStatus s = Loading)"

definition download_button_rendered :: "state \<Rightarrow> bool" where
  "download_button_rendered s = (imageStatus s = Loaded \<and> \<not> isImageNotAvailable s)"

text \<open>The panels of the content area, named by their class.\<close>

definition ss_loading :: "state \<Rightarrow> bool" where
  "ss_loading s = (imageStatus s = Loading)"

definition ss_error :: "state \<Rightarrow> string option" where
  "ss_error s = (if imageStatus s = Error then Some (errorMessage s) else None)"

definition ss_not_available :: "state \<Rightarrow> bool" where
  "ss_not_available s = (imageStatus s = Loaded \<and> isImageNotAvailable s)"

definition ss_rscape_side_by_side :: "state \<Rightarrow> bool" where
  "ss_rscape_side_by_side s =
     (imageStatus s = Loaded \<and> \<not> isImageNotAvailable s \<and> isRscapeType s \<and>
      str_includes (svgContent s) ''<svg'')"

definition ss_svg_wrapper :: "state \<Rightarrow> bool" where
  "ss_svg_wrapper s =
     (imageStatus s = Loaded \<and> \<not> isImageNotAvailable s \<and> \<not> isRscapeType s \<and>
      svgContent s \<noteq> [] \<and> str_includes (svgContent s) ''<svg'')"

definition ss_rchie_container :: "state \<Rightarrow> bool" where
  "ss_rchie_container s =
     (imageStatus s = Loaded \<and> \<not> isImageNotAvailable s \<and> isRchieType s)"

section \<open>Numbers as text\<close>

text \<open>The value of a digit in any radix up to 36.\<close>

definition digit_value :: "char \<Rightarrow> nat option" where
  "digit_value c =
     (let n = (of_char c :: nat)
      in if 48 \<le> n \<and> n \<le> 57 then Some (n - 48)
         else if 97 \<le> n \<and> n \<le> 122 then Some (n - 87)
         else if 65 \<le> n \<and> n \<le> 90 then Some (n - 55)
         else None)"

definition is_digit_of :: "nat \<Rightarrow> char \<Rightarrow> bool" where
  "is_digit_of radix c = (case digit_value c of None \<Rightarrow> False | Some d \<Rightarrow> d < radix)"

definition digits_value :: "nat \<Rightarrow> string \<Rightarrow> nat" where
  "digits_value radix ds =
     foldl (\<lambda>acc c. acc * radix + (case digit_value c of None \<Rightarrow> 0 | Some d \<Rightarrow> d)) 0 ds"

text \<open>
  \<^verbatim>\<open>String(n)\<close> for a whole number, as a template literal interpolates it: decimal digits,
  with a minus sign for a negative number; \<open>None\<close> is \<^verbatim>\<open>NaN\<close>.
\<close>

definition digit_char :: "nat \<Rightarrow> char" where
  "digit_char d = ''0123456789'' ! d"

fun digits_of :: "nat \<Rightarrow> string" where
  "digits_of n = (if n < 10 then [digit_char n] else digits_of (n div 10) @ [digit_char (n mod 10)])"

declare digits_of.simps [simp del]

definition number_to_string :: "int option \<Rightarrow> string" where
  "number_to_string v =
     (case v of
        None \<Rightarrow> ''NaN''
      | Some n \<Rightarrow> if n < 0 then ''-'' @ digits_of (nat (- n)) else digits_of (nat n))"

text \<open>
  What the browser reads in a \<^verbatim>\<open>background-position\<close> of two pixel lengths separated by
  one space: each length is an optional sign, at least one digit, and the unit \<^verbatim>\<open>px\<close>.
  \<open>None\<close> is a value that is not valid, whose declaration the browser drops.
\<close>

definition css_px :: "string \<Rightarrow> int option" where
  "css_px s =
     (let negative = (case s of [] \<Rightarrow> False | c # _ \<Rightarrow> c = CHR ''-'');
          r = (case s of [] \<Rightarrow> []
               | c # cs \<Rightarrow> if c = CHR ''-'' \<or> c = CHR ''+'' then cs else s);
          ds = takeWhile (is_digit_of 10) r;
          unit = dropWhile (is_digit_of 10) r
      in if ds \<noteq> [] \<and> unit = ''px''
         then Some ((if negative then - 1 else 1) * int (digits_value 10 ds))
         else None)"

definition css_background_position :: "string \<Rightarrow> (int \<times> int) option" where
  "css_background_position s =
     (let horizontal = takeWhile (\<lambda>c. c \<noteq> CHR '' '') s;
          vertical = drop 1 (dropWhile (\<lambda>c. c \<noteq> CHR '' '') s)
      in (case css_px horizontal of
            None \<Rightarrow> None
          | Some h \<Rightarrow> (case css_px vertical of None \<Rightarrow> None | Some v \<Rightarrow> Some (h, v))))"

section \<open>Magnifier\<close>

record mouse_event =
  clientX :: int
  clientY :: int

text \<open>The bounding box of the raster image, as read by the handler.\<close>

record rect =
  rect_left :: int
  rect_top :: int

text \<open>
  \<^verbatim>\<open>handleRchieMouseMove\<close>; the second argument is \<^verbatim>\<open>rchieImageRef.current\<close>, given by
  the bounding box of the image element when one is mounted.
\<close>

definition handleRchieMouseMove :: "state \<Rightarrow> rect option \<Rightarrow> mouse_event \<Rightarrow> state" where
  "handleRchieMouseMove s rchieImageRef e =
     (if selectedImageType s \<noteq> ''rchie'' then s
      else (case rchieImageRef of
              None \<Rightarrow> s
            | Some r \<Rightarrow>
                let x = clientX e - rect_left r;
                    y = clientY e - rect_top r
                in s\<lparr> loupePosition :=
                        \<lparr> loupe_x = clientX e, loupe_y = clientY e,
                          loupe_bgX = Some x, loupe_bgY = Some y,
                          loupe_visible = True \<rparr> \<rparr>))"

definition handleRchieMouseLeave :: "state \<Rightarrow> state" where
  "handleRchieMouseLeave s =
     s\<lparr> loupePosition := (loupePosition s)\<lparr> loupe_visible := False \<rparr> \<rparr>"

text \<open>
  The inline style of the lens, as the component hands it over: \<^verbatim>\<open>left\<close> and \<^verbatim>\<open>top\<close> as
  numbers, \<^verbatim>\<open>backgroundImage\<close> and \<^verbatim>\<open>backgroundPosition\<close> as the strings the two templates
  produce. Arithmetic on a missing coordinate gives \<^verbatim>\<open>NaN\<close>.
\<close>

record loupe_style =
  style_left :: int
  style_top :: int
  backgroundImage :: string
  backgroundPosition :: string

definition ss_loupe :: "config \<Rightarrow> state \<Rightarrow> rect option \<Rightarrow> loupe_style option" where
  "ss_loupe cfg s rchieImageRef =
     (if loupe_visible (loupePosition s) \<and> isRchieType s \<and> rchieImageRef \<noteq> None
      then Some \<lparr> style_left = loupe_x (loupePosition s) - 100,
                  style_top = loupe_y (loupePosition s) - 100,
                  backgroundImage = ''url('' @ buildImageUrl cfg ''rchie'' @ '')'',
                  backgroundPosition =
                    ''-'' @ number_to_string
                            (map_option (\<lambda>b. b * 2 - 100) (loupe_bgX (loupePosition s)))
                    @ ''px -'' @ number_to_string
                            (map_option (\<lambda>b. b * 2 - 100) (loupe_bgY (loupePosition s)))
                    @ ''px'' \<rparr>
      else None)"

section \<open>Download\<close>

text \<open>
  What a click on the download button hands to the browser: the blob and the
  \<^verbatim>\<open>download\<close> attribute of the link (\<open>None\<close> for \<^verbatim>\<open>null\<close>). No download happens when
  the content is empty.
\<close>

record download =
  blob_type :: string
  blob_content :: string
  filename :: "string option"

definition downloadImage :: "config \<Rightarrow> state \<Rightarrow> download option" where
  "downloadImage cfg s =
     (if svgContent s = [] then None
      else
        let is_svg = str_includes (svgContent s) ''<svg''
        in Some \<lparr> blob_type = (if is_svg then ''image/svg+xml'' else ''image/png''),
                  blob_content = svgContent s,
                  filename =
                    Some (if is_svg
                          then interpolate (familyAcc cfg) @ ''_'' @ selectedImageType s
                                 @ ''_structure.svg''
                          else interpolate (familyAcc cfg) @ ''_'' @ selectedImageType s
                                 @ ''_structure.png'') \<rparr>)"

text \<open>
  \<^verbatim>\<open>downloadImage\<close> as written in \<^verbatim>\<open>src/SecondaryStructures.jsx\<close>, the other copy of the
  component in the repository.
\<close>

definition downloadImage_src :: "config \<Rightarrow> state \<Rightarrow> download option" where
  "downloadImage_src cfg s =
     (if svgContent s = [] then None
      else Some \<lparr> blob_type =
                    (if str_includes (svgContent s) ''<svg''
                     then ''image/svg+xml'' else ''image/png''),
                  blob_content = svgContent s,
                  filename =
                    (if str_includes (svgContent s) ''<svg''
                     then Some (interpolate (familyAcc cfg) @ ''_'' @ selectedImageType s
                                  @ ''_structure.svg'')
                     else None) \<rparr>)"

section \<open>Binding a pan/zoom instance\<close>

text \<open>
  \<^verbatim>\<open>parseInt\<close> of an attribute value (\<open>None\<close> for the \<^verbatim>\<open>null\<close> of a missing attribute):
  leading white space, a sign, an optional \<^verbatim>\<open>0x\<close> prefix, then the longest run of digits
  of the radix; \<open>None\<close> is \<^verbatim>\<open>NaN\<close>. Strings are UTF-8, and \<open>white_space\<close> lists the
  encodings of the white space and line terminator code points.
\<close>

definition white_space :: "string list" where
  "white_space =
     [[CHR 0x09], [CHR 0x0A], [CHR 0x0B], [CHR 0x0C], [CHR 0x0D], [CHR 0x20],
      [CHR 0xC2, CHR 0xA0], [CHR 0xE1, CHR 0x9A, CHR 0x80],
      [CHR 0xE2, CHR 0x80, CHR 0x80], [CHR 0xE2, CHR 0x80, CHR 0x81],
      [CHR 0xE2, CHR 0x80, CHR 0x82], [CHR 0xE2, CHR 0x80, CHR 0x83],
      [CHR 0xE2, CHR 0x80, CHR 0x84], [CHR 0xE2, CHR 0x80, CHR 0x85],
      [CHR 0xE2, CHR 0x80, CHR 0x86], [CHR 0xE2, CHR 0x80, CHR 0x87],
      [CHR 0xE2, CHR 0x80, CHR 0x88], [CHR 0xE2, CHR 0x80, CHR 0x89],
      [CHR 0xE2, CHR 0x80, CHR 0x8A], [CHR 0xE2, CHR 0x80, CHR 0xA8],
      [CHR 0xE2, CHR 0x80, CHR 0xA9], [CHR 0xE2, CHR 0x80, CHR 0xAF],
      [CHR 0xE2, CHR 0x81, CHR 0x9F], [CHR 0xE3, CHR 0x80, CHR 0x80],
      [CHR 0xEF, CHR 0xBB, CHR 0xBF]]"

function skip_space :: "string \<Rightarrow> string" where
  "skip_space s =
     (case find (\<lambda>w. prefix w s) white_space of
        None \<Rightarrow> s
      | Some w \<Rightarrow> skip_space (drop (length w) s))"
  by pat_completeness auto
termination
proof (relation "measure length")
  show "wf (measure length)" by simp
next
  fix s w
  assume "find (\<lambda>w. prefix w s) white_space = Some w"
  then have p: "prefix w s" and m: "w \<in> set white_space"
    by (auto simp: find_Some_iff)
  from m have "w \<noteq> []" by (auto simp: white_space_def)
  with p show "(drop (length w) s, s) \<in> measure length"
    by (auto simp: prefix_def)
qed

declare skip_space.simps [simp del]


definition parseInt :: "string option \<Rightarrow> int option" where
  "parseInt v =
     (case v of
        None \<Rightarrow> None
      | Some s \<Rightarrow>
          let s1 = skip_space s;
              negative = (case s1 of [] \<Rightarrow> False | c # _ \<Rightarrow> c = CHR ''-'');
              s2 = (case s1 of [] \<Rightarrow> []
                    | c # r \<Rightarrow> if c = CHR ''-'' \<or> c = CHR ''+'' then r else s1);
              hex = (case s2 of
                       c # d # _ \<Rightarrow> c = CHR ''0'' \<and> (d = CHR ''x'' \<or> d = CHR ''X'')
                     | _ \<Rightarrow> False);
              radix = (if hex then 16 else 10);
              s3 = (if hex then drop 2 s2 else s2);
              ds = takeWhile (is_digit_of radix) s3
          in if ds = [] then None
             else Some ((if negative then - 1 else 1) * int (digits_value radix ds)))"

text \<open>\<^verbatim>\<open>parseInt(v) || 400\<close>: \<^verbatim>\<open>NaN\<close> and 0 are falsy.\<close>

definition dimension_or_400 :: "string option \<Rightarrow> int" where
  "dimension_or_400 v = (case parseInt v of None \<Rightarrow> 400 | Some n \<Rightarrow> if n = 0 then 400 else n)"

text \<open>
  \<^verbatim>\<open>initializePanZoom\<close> for a slot. The second argument is
  \<^verbatim>\<open>containerRef.current?.querySelector('svg')\<close>; the third tells whether \<^verbatim>\<open>svgPanZoom\<close>
  returns an instance (a fresh one) or throws. What the library itself does to the
  document is not part of the model.
\<close>

definition initializePanZoom ::
  "slot \<Rightarrow> node option \<Rightarrow> bool \<Rightarrow> viewports \<Rightarrow> viewports \<times> node option" where
  "initializePanZoom sl svgElement library_ok v =
     (let v1 = release sl v
      in (case svgElement of
            None \<Rightarrow> (v1, None)
          | Some svg \<Rightarrow>
              let width = dimension_or_400 (getAttribute svg ''width'');
                  height = dimension_or_400 (getAttribute svg ''height'');
                  svg1 = (if width < 400 then setAttribute svg ''width'' ''400'' else svg);
                  svg2 = (if height < 400 then setAttribute svg1 ''height'' ''400'' else svg1)
              in if library_ok
                 then (ref_set sl (Some (next_instance v1))
                         (v1\<lparr> live := live v1 @ [(sl, next_instance v1)],
                              next_instance := next_instance v1 + 1 \<rparr>),
                       Some svg2)
                 else (v1, Some svg2)))"

text \<open>
  The two timer callbacks: \<^verbatim>\<open>processRscapeSvg\<close>, whose \<^verbatim>\<open>setStats\<close> is
  \<^verbatim>\<open>setRscapeStats\<close> or \<^verbatim>\<open>setRscapeCykStats\<close>, then \<^verbatim>\<open>initializePanZoom\<close>.
\<close>

definition main_timer ::
  "node option \<Rightarrow> bool \<Rightarrow> state \<times> viewports \<Rightarrow> (state \<times> viewports) \<times> node option" where
  "main_timer svgElement library_ok sv =
     (case sv of (s, v) \<Rightarrow>
        (case processRscapeSvg svgElement of
           (svg1, counts) \<Rightarrow>
             let s' = (case counts of None \<Rightarrow> s | Some c \<Rightarrow> s\<lparr> rscapeStats := Some c \<rparr>)
             in (case initializePanZoom MainSlot svg1 library_ok v of
                   (v', svg2) \<Rightarrow> ((s', v'), svg2))))"

definition cyk_timer ::
  "node option \<Rightarrow> bool \<Rightarrow> state \<times> viewports \<Rightarrow> (state \<times> viewports) \<times> node option" where
  "cyk_timer svgElement library_ok sv =
     (case sv of (s, v) \<Rightarrow>
        (case processRscapeSvg svgElement of
           (svg1, counts) \<Rightarrow>
             let s' = (case counts of None \<Rightarrow> s | Some c \<Rightarrow> s\<lparr> rscapeCykStats := Some c \<rparr>)
             in (case initializePanZoom CykSlot svg1 library_ok v of
                   (v', svg2) \<Rightarrow> ((s', v'), svg2))))"

text \<open>The conditions under which the two effects schedule their timer.\<close>

definition main_timer_scheduled :: "state \<Rightarrow> bool" where
  "main_timer_scheduled s =
     (imageStatus s = Loaded \<and> svgContent s \<noteq> [] \<and> str_includes (svgContent s) ''<svg'' \<and>
      selectedImageType s = ''rscape'')"

definition cyk_timer_scheduled :: "state \<Rightarrow> bool" where
  "cyk_timer_scheduled s =
     (rscapeCykStatus s = Loaded \<and> rscapeCykContent s \<noteq> [] \<and>
      str_includes (rscapeCykContent s) ''<svg'')"

section \<open>The component as a transition system\<close>

text \<open>
  A configuration of the mounted component: the state of the hooks, the pan/zoom refs with
  the live instances, and the requests issued so far. The host passes the same props at
  every render. Each handler and each effect body runs to completion as one step. The
  document an event finds in a container, the pointer position and the outcome of
  \<^verbatim>\<open>svgPanZoom\<close> are chosen by the environment. An event is possible when the element that carries its handler is rendered
  (and, for the selector, enabled). Clicks that only open a window or start a download
  leave the configuration as it is and are not steps.

  The initial-load effect depends on \<^verbatim>\<open>imageTypes\<close>. When the host omits that prop, the
  default of the parameter list is a new array at every render, so after a commit the
  effect is cleaned up (both slots are released) and runs again; every run of
  \<^verbatim>\<open>initializeImages\<close> stores a new \<^verbatim>\<open>available\<close> array and so causes such a commit.
\<close>

type_synonym component = "state \<times> viewports \<times> request list"

definition mounted :: "network \<Rightarrow> config \<Rightarrow> component" where
  "mounted net cfg =
     (case initial_load_effect net cfg (initial_state cfg, []) of
        (s, hist) \<Rightarrow> (toggle_reset_effect (initial_state cfg) s, initial_viewports, hist))"

inductive step :: "network \<Rightarrow> config \<Rightarrow> component \<Rightarrow> component \<Rightarrow> bool"
  for net :: network and cfg :: config where
  select_change:
    "select_rendered s \<Longrightarrow> \<not> select_disabled s \<Longrightarrow> t \<in> set (dropdownTypes s) \<Longrightarrow>
     handleImageTypeChange net cfg t (s, v, hist) = (s', v', hist') \<Longrightarrow>
     step net cfg (s, v, hist) (toggle_reset_effect s s', v', hist')"
| load_cyk:
    "selectedImageType s = ''rscape'' \<Longrightarrow> imageStatus s = Loaded \<Longrightarrow>
     loadRscapeCyk net cfg (s, hist) = (s', hist') \<Longrightarrow>
     step net cfg (s, v, hist) (s', v, hist')"
| main_timer_fires:
    "main_timer_scheduled s \<Longrightarrow>
     main_timer svgElement library_ok (s, v) = ((s', v'), svg') \<Longrightarrow>
     step net cfg (s, v, hist) (s', v', hist)"
| cyk_timer_fires:
    "cyk_timer_scheduled s \<Longrightarrow>
     cyk_timer svgElement library_ok (s, v) = ((s', v'), svg') \<Longrightarrow>
     step net cfg (s, v, hist) (s', v', hist)"
| svg_click:
    "ss_svg_wrapper s \<Longrightarrow> canToggle s \<Longrightarrow>
     handleSvgClick s svgElement = (s', svg') \<Longrightarrow>
     step net cfg (s, v, hist) (s', v, hist)"
| rchie_mouse_move:
    "ss_rchie_container s \<Longrightarrow>
     step net cfg (s, v, hist) (handleRchieMouseMove s rchieImageRef e, v, hist)"
| rchie_mouse_leave:
    "ss_rchie_container s \<Longrightarrow>
     step net cfg (s, v, hist) (handleRchieMouseLeave s, v, hist)"
| unmount:
    "step net cfg (s, v, hist) (s, release_all v, hist)"
| initial_load_again:
    "imageTypes_prop cfg = None \<Longrightarrow>
     initial_load_effect net cfg (s, hist) = (s', hist') \<Longrightarrow>
     step net cfg (s, v, hist) (toggle_reset_effect s s', release_all v, hist')"

inductive reachable :: "network \<Rightarrow> config \<Rightarrow> component \<Rightarrow> bool"
  for net :: network and cfg :: config where
  reach_mounted: "reachable net cfg (mounted net cfg)"
| reach_step: "reachable net cfg c \<Longrightarrow> step net cfg c c' \<Longrightarrow> reachable net cfg c'"

text \<open>The component before anything has been loaded or requested.\<close>

definition idle :: "component \<Rightarrow> bool" where
  "idle c = (case c of (s, v, hist) \<Rightarrow>
     imageStatus s = Loading \<and> availableTypes s = [] \<and> rscapeCykStatus s = Loading \<and> hist = [])"

text \<open>The live instances of a slot.\<close>

definition live_in :: "slot \<Rightarrow> viewports \<Rightarrow> nat list" where
  "live_in sl v = map snd (filter (\<lambda>e. fst e = sl) (live v))"

text \<open>
  The discipline of the two refs: the live instances of each slot are what its ref holds,
  and instance identities are fresh.
\<close>

definition disciplined :: "viewports \<Rightarrow> bool" where
  "disciplined v =
     ((\<forall>sl. live_in sl v = (case ref_get sl v of None \<Rightarrow> [] | Some i \<Rightarrow> [i])) \<and>
      (\<forall>e \<in> set (live v). snd e < next_instance v) \<and>
      distinct (map snd (live v)))"

text \<open>A path element that is a pairing line, and one that has the significant fill.\<close>

definition is_pairing_line :: "node \<Rightarrow> bool" where
  "is_pairing_line e = (getAttribute e ''stroke-width'' = Some ''1.44'')"

definition has_significant_fill :: "node \<Rightarrow> bool" where
  "has_significant_fill e = (getAttribute e ''fill'' = Some RSCAPE_COLORS_significant)"

definition is_significant_pairing_line :: "node \<Rightarrow> bool" where
  "is_significant_pairing_line e = (is_pairing_line e \<and> has_significant_fill e)"

text \<open>
  The three layers of the toggle: whether a diagram has them, and their inline
  visibilities (sequence labels, outline, pairing lines) in the three phases.
\<close>

definition layers_present :: "node \<Rightarrow> bool" where
  "layers_present svg =
     (querySelector_id ''seq'' svg \<noteq> None \<and> querySelector_id ''outline'' svg \<noteq> None \<and>
      querySelector_id ''pairs'' svg \<noteq> None)"

definition layer_visibility ::
  "node option \<Rightarrow> (string option \<times> string option \<times> string option) option" where
  "layer_visibility d =
     (case d of
        None \<Rightarrow> None
      | Some svg \<Rightarrow>
          Some (visibility_of ''seq'' svg, visibility_of ''outline'' svg,
                visibility_of ''pairs'' svg))"

definition all_visible :: "(string option \<times> string option \<times> string option) option" where
  "all_visible = Some (Some ''visible'', Some ''visible'', Some ''visible'')"

definition structure_only :: "(string option \<times> string option \<times> string option) option" where
  "structure_only = Some (Some ''hidden'', Some ''visible'', Some ''visible'')"

definition sequence_only :: "(string option \<times> string option \<times> string option) option" where
  "sequence_only = Some (Some ''visible'', Some ''hidden'', Some ''hidden'')"

section \<open>The loader of \<^verbatim>\<open>src/SecondaryStructures.jsx\<close>\<close>

text \<open>
  In that copy \<^verbatim>\<open>loadImage\<close> returns the body itself (or \<^verbatim>\<open>null\<close>), \<^verbatim>\<open>tryLoadImage\<close>
  tests it with \<^verbatim>\<open>if (svg)\<close>, which an empty body fails, and the download button is
  rendered whenever the status is \<^verbatim>\<open>loaded\<close>. The component state there is a part of the
  state above; the other fields are left untouched.
\<close>

definition loadImage_src ::
  "network \<Rightarrow> config \<Rightarrow> string \<Rightarrow> request list \<Rightarrow> string option \<times> request list" where
  "loadImage_src net cfg type hist =
     (let req = Fetch GET (buildImageUrl cfg type);
          result =
            (case net hist req of
               None \<Rightarrow> None
             | Some resp \<Rightarrow>
                 if \<not> ok resp then None
                 else (case body resp of
                         None \<Rightarrow> None
                       | Some text \<Rightarrow>
                           let contentType =
                                 (case content_type resp of None \<Rightarrow> [] | Some c \<Rightarrow> c)
                           in if \<not> str_includes text ''<svg'' \<and>
                                 \<not> str_includes contentType ''image/png''
                              then None else Some text))
      in (result, hist @ [req]))"

fun tryLoadImage_src_loop ::
  "network \<Rightarrow> config \<Rightarrow> string list \<Rightarrow> state \<times> request list \<Rightarrow> bool \<times> state \<times> request list" where
  "tryLoadImage_src_loop net cfg [] (s, hist) =
     (False, s\<lparr> imageStatus := Error, errorMessage := no_images_message \<rparr>, hist)"
| "tryLoadImage_src_loop net cfg (type # types) (s, hist) =
     (case loadImage_src net cfg type hist of
        (Some svg, hist') \<Rightarrow>
          if svg \<noteq> []
          then (True,
                s\<lparr> svgContent := svg, selectedImageType := type, imageStatus := Loaded \<rparr>,
                hist')
          else tryLoadImage_src_loop net cfg types (s, hist')
      | (None, hist') \<Rightarrow> tryLoadImage_src_loop net cfg types (s, hist'))"

definition tryLoadImage_src ::
  "network \<Rightarrow> config \<Rightarrow> string list \<Rightarrow> state \<times> request list \<Rightarrow> bool \<times> state \<times> request list" where
  "tryLoadImage_src net cfg types sl =
     (case sl of (s, hist) \<Rightarrow>
        tryLoadImage_src_loop net cfg types (s\<lparr> imageStatus := Loading \<rparr>, hist))"

definition download_button_rendered_src :: "state \<Rightarrow> bool" where
  "download_button_rendered_src s = (imageStatus s = Loaded)"

section \<open>Vocabulary of the statements\<close>

text \<open>The GET request for the content of a rendering type.\<close>

definition image_request :: "config \<Rightarrow> string \<Rightarrow> request" where
  "image_request cfg type = Fetch GET (buildImageUrl cfg type)"

text \<open>The HEAD request that probes a rendering type.\<close>

definition probe_request :: "config \<Rightarrow> string \<Rightarrow> request" where
  "probe_request cfg type = Fetch HEAD (buildImageUrl cfg type)"

text \<open>The answers the service gives to a sequence of requests issued one after the other.\<close>

fun responses :: "network \<Rightarrow> request list \<Rightarrow> request list \<Rightarrow> response option list" where
  "responses net hist [] = []"
| "responses net hist (r # rs) = net hist r # responses net (hist @ [r]) rs"

text \<open>
  A fetch that succeeded with a recognized image: the promise resolved, the status is ok,
  the body could be read, and the body holds the vector root tag or the content type is
  the raster one.
\<close>

definition recognized_image :: "response option \<Rightarrow> bool" where
  "recognized_image r =
     (case r of
        None \<Rightarrow> False
      | Some resp \<Rightarrow>
          ok resp \<and>
          (case body resp of
             None \<Rightarrow> False
           | Some text \<Rightarrow>
               str_includes text ''<svg'' \<or>
               (case content_type resp of
                  None \<Rightarrow> False
                | Some c \<Rightarrow> str_includes c ''image/png'')))"

text \<open>A probe that reports the type as available: the promise resolved with an ok status.\<close>

definition probe_ok :: "response option \<Rightarrow> bool" where
  "probe_ok r = (case r of None \<Rightarrow> False | Some resp \<Rightarrow> ok resp)"

text \<open>
  The candidates among \<open>types\<close> whose probe reports them available, when the probes are
  issued one after the other starting from the history \<open>hist\<close>.
\<close>

definition available_among :: "network \<Rightarrow> config \<Rightarrow> request list \<Rightarrow> string list \<Rightarrow> string list" where
  "available_among net cfg hist types =
     map fst (filter (\<lambda>tr. probe_ok (snd tr))
                (zip types (responses net hist (map (probe_request cfg) types))))"

text \<open>
  The component after an initialization in which no probe reported a type available: the
  error panel with the fixed message, and the probes of one run as the only requests.
\<close>

definition exhausted :: "config \<Rightarrow> component \<Rightarrow> bool" where
  "exhausted cfg c = (case c of (s, v, hist) \<Rightarrow>
     imageStatus s = Error \<and> errorMessage s = no_images_message \<and> availableTypes s = [] \<and>
     rscapeCykStatus s = Loading \<and>
     hist = map (probe_request cfg) (typesToCheck cfg))"

section \<open>A small service, for the examples\<close>

definition example_config :: config where
  "example_config =
     \<lparr> familyAcc = Str ''RF00001'', imageTypes_prop = Some [''rscape'', ''cons'', ''norm''],
       apiBaseUrl = ''rfam'', varnaEnabled = True, showLegend = True, showDescription = True \<rparr>"

definition svg_response :: response where
  "svg_response = \<lparr> ok = True, status = 200, body = Some ''<svg></svg>'',
                    content_type = Some ''image/svg+xml'' \<rparr>"

definition png_response :: response where
  "png_response = \<lparr> ok = True, status = 200, body = Some ''PNG'',
                    content_type = Some ''image/png'' \<rparr>"

definition example_service :: network where
  "example_service hist req =
     (if req = Fetch HEAD ''rfam/RF00001/image/cons'' then Some svg_response
      else if req = Fetch HEAD ''rfam/RF00001/image/norm'' then Some svg_response
      else if req = Fetch GET ''rfam/RF00001/image/cons'' then Some svg_response
      else if req = Fetch GET ''rfam/RF00001/image/norm'' then Some png_response
      else if req = Fetch GET ''rfam/RF00001/image/rchie'' then Some png_response
      else None)"

text \<open>A service that answers every request with status 404.\<close>

definition not_found_service :: network where
  "not_found_service hist req =
     Some \<lparr> ok = False, status = 404, body = Some [], content_type = None \<rparr>"

text \<open>A service on which every probe succeeds and every GET fails.\<close>

definition head_only_service :: network where
  "head_only_service hist req =
     (case req of
        Fetch HEAD u \<Rightarrow> Some \<lparr> ok = True, status = 200, body = Some [], content_type = None \<rparr>
      | Fetch GET u \<Rightarrow> None)"

definition mixed_config :: config where
  "mixed_config =
     \<lparr> familyAcc = Str ''RF00001'',
       imageTypes_prop = Some [''rscape-cyk'', ''cons'', ''seqcons'', ''norm''],
       apiBaseUrl = ''rfam'', varnaEnabled = True, showLegend = True, showDescription = True \<rparr>"


text \<open>
  A service with an R-scape diagram, a small diagram, and the component after the timer of
  the main diagram has fired once and twice.
\<close>

definition rscape_service :: network where
  "rscape_service hist req =
     (if req = Fetch HEAD ''rfam/RF00001/image/rscape'' then Some svg_response
      else if req = Fetch GET ''rfam/RF00001/image/rscape'' then Some svg_response
      else None)"

definition plain_svg :: node where
  "plain_svg = Element ''svg'' [(''width'', ''120'')] [] []"

definition bound_once :: component where
  "bound_once =
     (case mounted rscape_service example_config of
        (s, v, hist) \<Rightarrow>
          (case main_timer (Some plain_svg) True (s, v) of ((s', v'), svg') \<Rightarrow> (s', v', hist)))"

definition bound_twice :: component where
  "bound_twice =
     (case bound_once of
        (s, v, hist) \<Rightarrow>
          (case main_timer (Some plain_svg) True (s, v) of ((s', v'), svg') \<Rightarrow> (s', v', hist)))"

text \<open>
  Two diagrams: one with ten pairing lines of which three have the significant fill, and
  one whose only significant path is not a pairing line.
\<close>

definition significant_line :: node where
  "significant_line =
     Element ''path'' [(''fill'', ''#31a354''), (''stroke-width'', ''1.44'')] [] []"

definition plain_line :: node where
  "plain_line = Element ''path'' [(''fill'', ''none''), (''stroke-width'', ''1.44'')] [] []"

definition rscape_fixture :: node where
  "rscape_fixture =
     Element ''svg'' [] []
       [Element ''text'' [(''id'', ''text1000'')] [] [Element ''tspan'' [] [] [Text ''RF00001'']],
        Element ''g'' [] []
          [Element ''text'' [] [] [Element ''tspan'' [(''fill'', ''#d90000'')] [] [Text ''R'']],
           Element ''path'' [(''fill'', ''#d90000'')] [] [],
           significant_line, plain_line, plain_line, significant_line, plain_line,
           plain_line, plain_line, significant_line, plain_line, plain_line]]"

definition shaded_fixture :: node where
  "shaded_fixture =
     Element ''svg'' [] []
       [Element ''path'' [(''fill'', ''#31a354'')] [] [],
        Element ''path'' [(''fill'', ''none''), (''stroke-width'', ''1.44'')] [] []]"

text \<open>A diagram with the three layers, and a state in which a toggling type is selected.\<close>

definition layered_svg :: node where
  "layered_svg =
     Element ''svg'' [] []
       [Element ''g'' [(''id'', ''outline'')] [] [Element ''path'' [] [] []],
        Element ''g'' [(''id'', ''pairs'')] [] [Element ''path'' [] [] []],
        Element ''g'' [(''id'', ''seq'')] [] [Element ''text'' [] [] [Text ''G'']]]"

definition cons_state :: state where
  "cons_state = (initial_state example_config)\<lparr> selectedImageType := ''cons'' \<rparr>"

text \<open>A state in which the arc diagram is selected.\<close>

definition rchie_state :: state where
  "rchie_state = (initial_state example_config)\<lparr> selectedImageType := ''rchie'' \<rparr>"

text \<open>Configurations for which initialization does not start.\<close>

definition empty_config :: config where
  "empty_config = example_config\<lparr> imageTypes_prop := Some [] \<rparr>"

definition anonymous_config :: config where
  "anonymous_config = example_config\<lparr> familyAcc := Undefined \<rparr>"

text \<open>
  A host that passes no \<^verbatim>\<open>imageTypes\<close>: the probes and the fetches of one run of
  initialization, and the states in which a run ends when no probe succeeds, and when
  every probe succeeds and every fetch fails.
\<close>

definition default_config :: config where
  "default_config = example_config\<lparr> imageTypes_prop := None \<rparr>"

definition default_probes :: "request list" where
  "default_probes =
     [Fetch HEAD ''rfam/RF00001/image/rscape'', Fetch HEAD ''rfam/RF00001/image/cons'',
      Fetch HEAD ''rfam/RF00001/image/norm'', Fetch HEAD ''rfam/RF00001/image/cov'',
      Fetch HEAD ''rfam/RF00001/image/ent'', Fetch HEAD ''rfam/RF00001/image/maxcm'',
      Fetch HEAD ''rfam/RF00001/image/fcbp'', Fetch HEAD ''rfam/RF00001/image/rchie'']"

definition default_fetches :: "request list" where
  "default_fetches =
     [Fetch GET ''rfam/RF00001/image/rscape'', Fetch GET ''rfam/RF00001/image/cons'',
      Fetch GET ''rfam/RF00001/image/norm'', Fetch GET ''rfam/RF00001/image/cov'',
      Fetch GET ''rfam/RF00001/image/ent'', Fetch GET ''rfam/RF00001/image/maxcm'',
      Fetch GET ''rfam/RF00001/image/fcbp'', Fetch GET ''rfam/RF00001/image/rchie'']"

definition failed_state :: state where
  "failed_state = (initial_state default_config)
     \<lparr> availableTypes := [], imageStatus := Error, errorMessage := no_images_message \<rparr>"

definition unloadable_state :: state where
  "unloadable_state = (initial_state default_config)
     \<lparr> availableTypes := DEFAULT_IMAGE_TYPES, imageStatus := Error,
       errorMessage := no_images_message \<rparr>"

section \<open>Basic facts\<close>

lemma imageTypes_passed [simp]: "imageTypes_prop cfg = Some types \<Longrightarrow> imageTypes cfg = types"
  by (simp add: imageTypes_def)

lemma imageTypes_omitted [simp]:
  "imageTypes_prop cfg = None \<Longrightarrow> imageTypes cfg = DEFAULT_IMAGE_TYPES"
  by (simp add: imageTypes_def)

lemma includes_iff: "str_includes s p \<longleftrightarrow> (\<exists>a b. s = a @ p @ b)"
proof (induction s)
  case Nil
  then show ?case by auto
next
  case (Cons c cs)
  show ?case
  proof
    assume "str_includes (c # cs) p"
    then consider "prefix p (c # cs)" | "str_includes cs p" by auto
    then show "\<exists>a b. c # cs = a @ p @ b"
    proof cases
      case 1
      then obtain b where "c # cs = p @ b" by (auto simp: prefix_def)
      then have "c # cs = [] @ p @ b" by simp
      then show ?thesis by blast
    next
      case 2
      then obtain a b where "cs = a @ p @ b" using Cons.IH by blast
      then have "c # cs = (c # a) @ p @ b" by simp
      then show ?thesis by blast
    qed
  next
    assume "\<exists>a b. c # cs = a @ p @ b"
    then obtain a b where ab: "c # cs = a @ p @ b" by blast
    show "str_includes (c # cs) p"
    proof (cases a)
      case Nil
      with ab have "prefix p (c # cs)" by (simp add: prefix_def)
      then show ?thesis by simp
    next
      case (Cons a0 as)
      with ab have "cs = as @ p @ b" by simp
      then have "str_includes cs p" using Cons.IH by blast
      then show ?thesis by simp
    qed
  qed
qed

lemma includes_empty_png [simp]: "\<not> str_includes [] ''image/png''"
  by simp

lemma loadImage_requests: "snd (loadImage net cfg type hist) = hist @ [image_request cfg type]"
  by (simp add: loadImage_def image_request_def Let_def)

lemma loadImage_unrecognized:
  "\<not> recognized_image (net hist (image_request cfg type)) \<Longrightarrow>
   loadImage net cfg type hist = (None, hist @ [image_request cfg type])"
  by (auto simp: loadImage_def image_request_def recognized_image_def Let_def
           split: option.splits)

lemma loadImage_recognized:
  "recognized_image (net hist (image_request cfg type)) \<Longrightarrow>
   \<exists>resp text.
     net hist (image_request cfg type) = Some resp \<and> ok resp \<and> body resp = Some text \<and>
     loadImage net cfg type hist =
       (Some \<lparr> content = text,
               isAvailable = (str_includes text ''<svg'' \<or> type = ''rchie''),
               isSvg = str_includes text ''<svg'' \<rparr>,
        hist @ [image_request cfg type])"
  by (auto simp: loadImage_def image_request_def recognized_image_def Let_def
           split: option.splits)

lemma responses_append:
  "responses net hist (xs @ ys) = responses net hist xs @ responses net (hist @ xs) ys"
  by (induction xs arbitrary: hist) auto

lemma length_responses [simp]: "length (responses net hist rs) = length rs"
  by (induction rs arbitrary: hist) auto

lemma tryLoadImage_loop_first:
  assumes "\<forall>i < length pre.
             \<not> recognized_image (responses net hist (map (image_request cfg) (pre @ [t])) ! i)"
      and "recognized_image (responses net hist (map (image_request cfg) (pre @ [t])) ! length pre)"
  shows "\<exists>resp text.
           responses net hist (map (image_request cfg) (pre @ [t])) ! length pre = Some resp \<and>
           ok resp \<and> body resp = Some text \<and>
           tryLoadImage_loop net cfg (pre @ t # post) (s, hist) =
             (True,
              s\<lparr> svgContent := text,
                 selectedImageType := t,
                 isImageNotAvailable := \<not> (str_includes text ''<svg'' \<or> t = ''rchie''),
                 imageStatus := Loaded \<rparr>,
              hist @ map (image_request cfg) (pre @ [t]))"
  using assms
proof (induction pre arbitrary: hist)
  case Nil
  then have "recognized_image (net hist (image_request cfg t))" by simp
  then show ?case using loadImage_recognized [of net hist cfg t] by auto
next
  case (Cons p pre)
  from Cons.prems(1) have "\<not> recognized_image (net hist (image_request cfg p))"
    by fastforce
  then have step: "loadImage net cfg p hist = (None, hist @ [image_request cfg p])"
    using loadImage_unrecognized [of net hist cfg p] by simp
  have fails: "\<forall>i < length pre.
      \<not> recognized_image
          (responses net (hist @ [image_request cfg p]) (map (image_request cfg) (pre @ [t])) ! i)"
  proof (intro allI impI)
    fix i assume "i < length pre"
    then have "Suc i < length (p # pre)" by simp
    with Cons.prems(1) show "\<not> recognized_image
          (responses net (hist @ [image_request cfg p]) (map (image_request cfg) (pre @ [t])) ! i)"
      by fastforce
  qed
  have succ: "recognized_image
      (responses net (hist @ [image_request cfg p]) (map (image_request cfg) (pre @ [t])) ! length pre)"
    using Cons.prems(2) by simp
  from Cons.IH [OF fails succ] step show ?case by simp
qed

lemma availability_loop_eq:
  "availability_loop net cfg types (acc, hist) =
     (acc @ available_among net cfg hist types, hist @ map (probe_request cfg) types)"
proof (induction types arbitrary: acc hist)
  case Nil
  then show ?case by (simp add: available_among_def)
next
  case (Cons t ts)
  show ?case
    by (simp add: Cons.IH checkImageAvailability_def probe_request_def probe_ok_def
          available_among_def Let_def)
qed

lemma available_among_subset: "set (available_among net cfg hist types) \<subseteq> set types"
  by (auto simp: available_among_def dest: set_zip_leftD)

lemma available_among_none:
  "list_all (\<lambda>r. \<not> probe_ok r) (responses net hist (map (probe_request cfg) types)) \<Longrightarrow>
   available_among net cfg hist types = []"
  by (auto simp: available_among_def list_all_iff filter_empty_conv dest: set_zip_rightD)

lemma tryLoadImage_loop_all_fail:
  "list_all (\<lambda>r. \<not> recognized_image r) (responses net hist (map (image_request cfg) types)) \<Longrightarrow>
   tryLoadImage_loop net cfg types (s, hist) =
     (False, s\<lparr> imageStatus := Error, errorMessage := no_images_message \<rparr>,
      hist @ map (image_request cfg) types)"
proof (induction types arbitrary: hist)
  case Nil
  then show ?case by simp
next
  case (Cons t ts)
  then have "\<not> recognized_image (net hist (image_request cfg t))" by simp
  then have "loadImage net cfg t hist = (None, hist @ [image_request cfg t])"
    using loadImage_unrecognized [of net hist cfg t] by simp
  moreover from Cons.prems have
    "list_all (\<lambda>r. \<not> recognized_image r)
       (responses net (hist @ [image_request cfg t]) (map (image_request cfg) ts))"
    by simp
  ultimately show ?case using Cons.IH by simp
qed

lemma tryLoadImage_loop_trace:
  "tryLoadImage_loop net cfg types (s, hist) = (b, s', hist') \<Longrightarrow>
   \<exists>k \<le> length types. hist' = hist @ map (image_request cfg) (take k types) \<and>
     (if b then selectedImageType s' \<in> set types \<and> imageStatus s' = Loaded
      else selectedImageType s' = selectedImageType s \<and> imageStatus s' = Error
           \<and> errorMessage s' = no_images_message)
     \<and> availableTypes s' = availableTypes s"
proof (induction types arbitrary: hist)
  case Nil
  then show ?case by auto
next
  case (Cons t ts)
  show ?case
  proof (cases "fst (loadImage net cfg t hist)")
    case None
    then have li: "loadImage net cfg t hist = (None, hist @ [image_request cfg t])"
      using loadImage_requests [of net cfg t hist] by (metis prod.collapse)
    with Cons.prems have "tryLoadImage_loop net cfg ts (s, hist @ [image_request cfg t]) = (b, s', hist')"
      by simp
    from Cons.IH [OF this] obtain k where k: "k \<le> length ts"
      "hist' = (hist @ [image_request cfg t]) @ map (image_request cfg) (take k ts)"
      "(if b then selectedImageType s' \<in> set ts \<and> imageStatus s' = Loaded
        else selectedImageType s' = selectedImageType s \<and> imageStatus s' = Error
           \<and> errorMessage s' = no_images_message) \<and> availableTypes s' = availableTypes s"
      by blast
    have "Suc k \<le> length (t # ts)" using k(1) by simp
    moreover have "hist' = hist @ map (image_request cfg) (take (Suc k) (t # ts))"
      using k(2) by simp
    moreover have "(if b then selectedImageType s' \<in> set (t # ts) \<and> imageStatus s' = Loaded
        else selectedImageType s' = selectedImageType s \<and> imageStatus s' = Error
           \<and> errorMessage s' = no_images_message) \<and> availableTypes s' = availableTypes s"
      using k(3) by (auto split: if_splits)
    ultimately show ?thesis by blast
  next
    case (Some r)
    then have li: "loadImage net cfg t hist = (Some r, hist @ [image_request cfg t])"
      using loadImage_requests [of net cfg t hist] by (metis prod.collapse)
    with Cons.prems have b: "b" and s': "s' = s\<lparr> svgContent := content r,
              selectedImageType := t,
              isImageNotAvailable := \<not> isAvailable r,
              imageStatus := Loaded \<rparr>" and h: "hist' = hist @ [image_request cfg t]"
      by auto
    have "Suc 0 \<le> length (t # ts)" by simp
    moreover have "hist' = hist @ map (image_request cfg) (take (Suc 0) (t # ts))"
      using h by simp
    ultimately show ?thesis using b s' by (intro exI [of _ "Suc 0"]) auto
  qed
qed

section \<open>The fallback loader\<close>

text \<open>
  C1. Let the candidates handed to \<^verbatim>\<open>tryLoadImage\<close> be \<open>pre @ t # post\<close>, and let the answers
  of the service to the GETs for \<open>pre\<close> and then \<open>t\<close>, issued in this order, be such that
  none for \<open>pre\<close> is a successful fetch of a recognized image and the one for \<open>t\<close> is.
  Then the loader succeeds, the displayed content is the body of that answer and the
  selected type is \<open>t\<close>; the requests issued are exactly the GETs for \<open>pre\<close> and then
  for \<open>t\<close>, in the order of the list: nothing of \<open>post\<close> is fetched.
\<close>

theorem tryLoadImage_first_success:
  assumes "map recognized_image (responses net hist (map (image_request cfg) (pre @ [t]))) =
             replicate (length pre) False @ [True]"
  shows "\<exists>resp text.
           last (responses net hist (map (image_request cfg) (pre @ [t]))) = Some resp \<and>
           ok resp \<and> body resp = Some text \<and>
           tryLoadImage net cfg (pre @ t # post) (s, hist) =
             (True,
              s\<lparr> svgContent := text,
                 selectedImageType := t,
                 isImageNotAvailable := \<not> (str_includes text ''<svg'' \<or> t = ''rchie''),
                 imageStatus := Loaded \<rparr>,
              hist @ map (image_request cfg) (pre @ [t]))"
proof -
  let ?rs = "responses net hist (map (image_request cfg) (pre @ [t]))"
  have len: "length ?rs = Suc (length pre)" by simp
  have nth: "recognized_image (?rs ! i) = ((replicate (length pre) False @ [True]) ! i)"
    if "i < Suc (length pre)" for i
  proof -
    have "map recognized_image ?rs ! i = recognized_image (?rs ! i)"
      using that len by (metis nth_map)
    then show ?thesis using assms by simp
  qed
  have fails: "\<forall>i < length pre. \<not> recognized_image (?rs ! i)"
    using nth by (simp add: nth_append)
  have succ: "recognized_image (?rs ! length pre)"
    using nth [of "length pre"] by (simp add: nth_append)
  have last_eq: "last ?rs = ?rs ! length pre"
    using len by (metis diff_Suc_1 last_conv_nth length_0_conv nat.distinct(1))
  from tryLoadImage_loop_first [OF fails succ]
  obtain resp c where
    "?rs ! length pre = Some resp"
    "ok resp" "body resp = Some c"
    "tryLoadImage_loop net cfg (pre @ t # post)
        (s\<lparr> imageStatus := Loading, isImageNotAvailable := False \<rparr>, hist) =
       (True,
        s\<lparr> imageStatus := Loading, isImageNotAvailable := False,
           svgContent := c,
           selectedImageType := t,
           isImageNotAvailable := \<not> (str_includes c ''<svg'' \<or> t = ''rchie''),
           imageStatus := Loaded \<rparr>,
        hist @ map (image_request cfg) (pre @ [t]))"
    by blast
  then show ?thesis using last_eq by (auto simp: tryLoadImage_def)
qed

theorem tryLoadImage_first_success_witness:
  "map recognized_image
     (responses example_service []
        (map (image_request example_config) ([''rscape''] @ [''cons''])))
     = replicate (length [''rscape'']) False @ [True] \<and>
   tryLoadImage example_service example_config [''rscape'', ''cons'', ''norm'']
     (initial_state example_config, []) =
     (True,
      (initial_state example_config)
        \<lparr> svgContent := ''<svg></svg>'', selectedImageType := ''cons'',
          isImageNotAvailable := False, imageStatus := Loaded \<rparr>,
      [Fetch GET ''rfam/RF00001/image/rscape'', Fetch GET ''rfam/RF00001/image/cons''])"
proof -
  have h: "map recognized_image
     (responses example_service []
        (map (image_request example_config) ([''rscape''] @ [''cons''])))
     = replicate (length [''rscape'']) False @ [True]"
    by (simp add: recognized_image_def example_service_def image_request_def
          buildImageUrl_def example_config_def svg_response_def)
  from tryLoadImage_first_success [OF h, of "[''norm'']" "initial_state example_config"]
  have "tryLoadImage example_service example_config [''rscape'', ''cons'', ''norm'']
     (initial_state example_config, []) =
     (True,
      (initial_state example_config)
        \<lparr> svgContent := ''<svg></svg>'', selectedImageType := ''cons'',
          isImageNotAvailable := False, imageStatus := Loaded \<rparr>,
      [Fetch GET ''rfam/RF00001/image/rscape'', Fetch GET ''rfam/RF00001/image/cons''])"
    by (auto simp: example_service_def image_request_def
          buildImageUrl_def example_config_def svg_response_def)
  with h show ?thesis by blast
qed

section \<open>Exhaustion\<close>

lemma tryLoadImage_all_fail:
  "list_all (\<lambda>r. \<not> recognized_image r) (responses net hist (map (image_request cfg) types)) \<Longrightarrow>
   tryLoadImage net cfg types (s, hist) =
     (False, s\<lparr> imageStatus := Error, isImageNotAvailable := False,
                errorMessage := no_images_message \<rparr>,
      hist @ map (image_request cfg) types)"
  using tryLoadImage_loop_all_fail
          [of net hist cfg types "s\<lparr> imageStatus := Loading, isImageNotAvailable := False \<rparr>"]
  by (simp add: tryLoadImage_def)

lemma initializeImages_none_available:
  assumes "available_among net cfg hist (typesToCheck cfg) = []"
  shows "initializeImages net cfg (s, hist) =
           (s\<lparr> availableTypes := [], imageStatus := Error, errorMessage := no_images_message \<rparr>,
            hist @ map (probe_request cfg) (typesToCheck cfg))"
  using assms by (simp add: initializeImages_def availability_loop_eq)

lemma initializeImages_some_available:
  assumes "available_among net cfg hist (typesToCheck cfg) = available" "available \<noteq> []"
  shows "initializeImages net cfg (s, hist) =
           snd (tryLoadImage net cfg available
                  (s\<lparr> availableTypes := available \<rparr>,
                   hist @ map (probe_request cfg) (typesToCheck cfg)))"
  using assms by (simp add: initializeImages_def availability_loop_eq)

text \<open>
  One run of initialization (the family accession is truthy and the configured list is
  not empty): if every probe issued reports its type unavailable, the run ends in status
  \<open>Error\<close> with the fixed message, and the only requests it issues are the HEAD probes, no
  GET. If every GET the loader issues for its candidates fails, the loader returns
  \<open>False\<close> in status \<open>Error\<close> with the same message, having fetched each candidate
  exactly once and nothing after; the same holds for initialization as a whole when some
  candidates probe as available and all their fetches fail.
\<close>

theorem no_images_error:
  assumes "truthy (familyAcc cfg)" and "imageTypes cfg \<noteq> []"
  shows
    "(list_all (\<lambda>r. \<not> probe_ok r)
        (responses net hist (map (probe_request cfg) (typesToCheck cfg))) \<longrightarrow>
      initial_load_effect net cfg (s, hist) =
        (s\<lparr> availableTypes := [], imageStatus := Error, errorMessage := no_images_message \<rparr>,
         hist @ map (probe_request cfg) (typesToCheck cfg)))
     \<and>
     (list_all (\<lambda>r. \<not> recognized_image r)
        (responses net hist (map (image_request cfg) types)) \<longrightarrow>
      tryLoadImage net cfg types (s, hist) =
        (False,
         s\<lparr> imageStatus := Error, isImageNotAvailable := False,
            errorMessage := no_images_message \<rparr>,
         hist @ map (image_request cfg) types))
     \<and>
     (available_among net cfg hist (typesToCheck cfg) \<noteq> [] \<and>
      list_all (\<lambda>r. \<not> recognized_image r)
        (responses net (hist @ map (probe_request cfg) (typesToCheck cfg))
           (map (image_request cfg) (available_among net cfg hist (typesToCheck cfg)))) \<longrightarrow>
      initial_load_effect net cfg (s, hist) =
        (s\<lparr> availableTypes := available_among net cfg hist (typesToCheck cfg),
            imageStatus := Error, isImageNotAvailable := False,
            errorMessage := no_images_message \<rparr>,
         hist @ map (probe_request cfg) (typesToCheck cfg)
              @ map (image_request cfg) (available_among net cfg hist (typesToCheck cfg))))"
proof (intro conjI impI)
  assume "list_all (\<lambda>r. \<not> probe_ok r)
        (responses net hist (map (probe_request cfg) (typesToCheck cfg)))"
  then have "available_among net cfg hist (typesToCheck cfg) = []"
    using available_among_none [of net hist cfg "typesToCheck cfg"] by simp
  then show "initial_load_effect net cfg (s, hist) =
        (s\<lparr> availableTypes := [], imageStatus := Error, errorMessage := no_images_message \<rparr>,
         hist @ map (probe_request cfg) (typesToCheck cfg))"
    using assms by (simp add: initial_load_effect_def initializeImages_none_available)
next
  assume "list_all (\<lambda>r. \<not> recognized_image r)
        (responses net hist (map (image_request cfg) types))"
  then show "tryLoadImage net cfg types (s, hist) =
        (False,
         s\<lparr> imageStatus := Error, isImageNotAvailable := False,
            errorMessage := no_images_message \<rparr>,
         hist @ map (image_request cfg) types)"
    by (rule tryLoadImage_all_fail)
next
  let ?av = "available_among net cfg hist (typesToCheck cfg)"
  let ?h1 = "hist @ map (probe_request cfg) (typesToCheck cfg)"
  assume a: "?av \<noteq> [] \<and>
      list_all (\<lambda>r. \<not> recognized_image r) (responses net ?h1 (map (image_request cfg) ?av))"
  then have "tryLoadImage net cfg ?av (s\<lparr> availableTypes := ?av \<rparr>, ?h1) =
      (False, s\<lparr> availableTypes := ?av \<rparr>
                \<lparr> imageStatus := Error, isImageNotAvailable := False,
                  errorMessage := no_images_message \<rparr>,
       ?h1 @ map (image_request cfg) ?av)"
    using tryLoadImage_all_fail [of net ?h1 cfg ?av "s\<lparr> availableTypes := ?av \<rparr>"] by blast
  then show "initial_load_effect net cfg (s, hist) =
        (s\<lparr> availableTypes := ?av,
            imageStatus := Error, isImageNotAvailable := False,
            errorMessage := no_images_message \<rparr>,
         hist @ map (probe_request cfg) (typesToCheck cfg) @ map (image_request cfg) ?av)"
    using assms a initializeImages_some_available [of net cfg hist ?av s]
    by (simp add: initial_load_effect_def)
qed

lemma image_request_example:
  "image_request example_config t = Fetch GET (''rfam/RF00001/image/'' @ t)"
  by (simp add: image_request_def example_config_def buildImageUrl_def)

lemma probe_request_example:
  "probe_request example_config t = Fetch HEAD (''rfam/RF00001/image/'' @ t)"
  by (simp add: probe_request_def example_config_def buildImageUrl_def)

lemma probes_example: "map (probe_request example_config) (typesToCheck example_config) =
  [Fetch HEAD ''rfam/RF00001/image/rscape'', Fetch HEAD ''rfam/RF00001/image/cons'',
   Fetch HEAD ''rfam/RF00001/image/norm'']"
  by (simp add: probe_request_def typesToCheck_def example_config_def buildImageUrl_def
        DROPDOWN_IMAGE_TYPES_def)

theorem no_images_error_witness:
  "truthy (familyAcc example_config) \<and> imageTypes example_config \<noteq> [] \<and>
   list_all (\<lambda>r. \<not> probe_ok r)
     (responses not_found_service []
        (map (probe_request example_config) (typesToCheck example_config))) \<and>
   initial_load_effect not_found_service example_config (initial_state example_config, []) =
     ((initial_state example_config)
        \<lparr> availableTypes := [], imageStatus := Error, errorMessage := no_images_message \<rparr>,
      [Fetch HEAD ''rfam/RF00001/image/rscape'', Fetch HEAD ''rfam/RF00001/image/cons'',
       Fetch HEAD ''rfam/RF00001/image/norm'']) \<and>
   available_among head_only_service example_config [] (typesToCheck example_config)
     = [''rscape'', ''cons'', ''norm''] \<and>
   initial_load_effect head_only_service example_config (initial_state example_config, []) =
     ((initial_state example_config)
        \<lparr> availableTypes := [''rscape'', ''cons'', ''norm''], imageStatus := Error,
          isImageNotAvailable := False, errorMessage := no_images_message \<rparr>,
      [Fetch HEAD ''rfam/RF00001/image/rscape'', Fetch HEAD ''rfam/RF00001/image/cons'',
       Fetch HEAD ''rfam/RF00001/image/norm'', Fetch GET ''rfam/RF00001/image/rscape'',
       Fetch GET ''rfam/RF00001/image/cons'', Fetch GET ''rfam/RF00001/image/norm''])"
proof -
  have g1: "truthy (familyAcc example_config)" and g2: "imageTypes example_config \<noteq> []"
    by (simp_all add: example_config_def)
  have p: "list_all (\<lambda>r. \<not> probe_ok r)
     (responses not_found_service []
        (map (probe_request example_config) (typesToCheck example_config)))"
    by (simp add: probes_example probe_ok_def not_found_service_def)
  have av: "available_among head_only_service example_config [] (typesToCheck example_config)
     = [''rscape'', ''cons'', ''norm'']"
    by (simp add: available_among_def probes_example probe_ok_def head_only_service_def)
       (simp add: typesToCheck_def example_config_def DROPDOWN_IMAGE_TYPES_def)
  have f: "list_all (\<lambda>r. \<not> recognized_image r)
        (responses head_only_service
           ([] @ map (probe_request example_config) (typesToCheck example_config))
           (map (image_request example_config)
              (available_among head_only_service example_config []
                 (typesToCheck example_config))))"
    by (simp add: av image_request_def recognized_image_def head_only_service_def)
  have ne: "available_among head_only_service example_config [] (typesToCheck example_config) \<noteq> []"
    by (simp add: av)
  note a = no_images_error [OF g1 g2, where net = not_found_service and hist = "[]"
          and s = "initial_state example_config" and types = "[]"]
  note b = no_images_error [OF g1 g2, where net = head_only_service and hist = "[]"
          and s = "initial_state example_config" and types = "[]"]
  from a [THEN conjunct1, THEN mp, OF p]
  have r1: "initial_load_effect not_found_service example_config (initial_state example_config, []) =
     ((initial_state example_config)
        \<lparr> availableTypes := [], imageStatus := Error, errorMessage := no_images_message \<rparr>,
      [Fetch HEAD ''rfam/RF00001/image/rscape'', Fetch HEAD ''rfam/RF00001/image/cons'',
       Fetch HEAD ''rfam/RF00001/image/norm''])"
    by (simp add: probes_example)
  from b [THEN conjunct2, THEN conjunct2, THEN mp, OF conjI [OF ne f]]
  have r2: "initial_load_effect head_only_service example_config (initial_state example_config, []) =
     ((initial_state example_config)
        \<lparr> availableTypes := [''rscape'', ''cons'', ''norm''], imageStatus := Error,
          isImageNotAvailable := False, errorMessage := no_images_message \<rparr>,
      [Fetch HEAD ''rfam/RF00001/image/rscape'', Fetch HEAD ''rfam/RF00001/image/cons'',
       Fetch HEAD ''rfam/RF00001/image/norm'', Fetch GET ''rfam/RF00001/image/rscape'',
       Fetch GET ''rfam/RF00001/image/cons'', Fetch GET ''rfam/RF00001/image/norm''])"
    by (simp add: av probes_example image_request_example)
  from g1 g2 p r1 av r2 show ?thesis by blast
qed

section \<open>Initialization that starts again\<close>

text \<open>
  When the host passes \<^verbatim>\<open>imageTypes\<close>, an initialization in which no probe reports a type
  available is final: whatever events follow, the error panel with the fixed message stays
  and no further request is issued.
\<close>

lemma exhausted_mounted:
  assumes "truthy (familyAcc cfg)" and "imageTypes cfg \<noteq> []"
      and "list_all (\<lambda>r. \<not> probe_ok r)
             (responses net [] (map (probe_request cfg) (typesToCheck cfg)))"
  shows "exhausted cfg (mounted net cfg)"
  using no_images_error [OF assms(1,2), where net = net and hist = "[]"
          and s = "initial_state cfg"] assms(3)
  by (simp add: exhausted_def mounted_def toggle_reset_effect_def initial_state_def)

lemma exhausted_step:
  assumes "step net cfg c c'" and "exhausted cfg c" and "imageTypes_prop cfg \<noteq> None"
  shows "exhausted cfg c'"
  using assms
proof (induction rule: step.induct)
  case (select_change s t v hist s' v' hist')
  then show ?case by (simp add: exhausted_def select_rendered_def dropdownTypes_def)
next
  case (load_cyk s hist s' hist' v)
  then show ?case by (simp add: exhausted_def)
next
  case (main_timer_fires s svgElement library_ok v s' v' svg' hist)
  then show ?case by (simp add: exhausted_def main_timer_scheduled_def)
next
  case (cyk_timer_fires s svgElement library_ok v s' v' svg' hist)
  then show ?case by (simp add: exhausted_def cyk_timer_scheduled_def)
next
  case (svg_click s svgElement s' svg' v hist)
  then show ?case by (simp add: exhausted_def ss_svg_wrapper_def)
next
  case (rchie_mouse_move s v hist rchieImageRef e)
  then show ?case by (simp add: exhausted_def ss_rchie_container_def)
next
  case (rchie_mouse_leave s v hist)
  then show ?case by (simp add: exhausted_def ss_rchie_container_def)
next
  case (unmount s v hist)
  then show ?case by (simp add: exhausted_def)
next
  case (initial_load_again s hist s' hist' v)
  then show ?case by simp
qed

lemma no_retry_with_passed_types:
  assumes "truthy (familyAcc cfg)" and "imageTypes_prop cfg = Some types" and "types \<noteq> []"
      and "list_all (\<lambda>r. \<not> probe_ok r)
             (responses net [] (map (probe_request cfg) (typesToCheck cfg)))"
      and "reachable net cfg (s, v, hist)"
  shows "imageStatus s = Error \<and> errorMessage s = no_images_message \<and>
         hist = map (probe_request cfg) (typesToCheck cfg)"
proof -
  have "exhausted cfg c" if "reachable net cfg c" for c
    using that
  proof (induction rule: reachable.induct)
    case reach_mounted
    show ?case using assms(1-4) by (intro exhausted_mounted) simp_all
  next
    case (reach_step c c')
    then show ?case using exhausted_step assms(2) by auto
  qed
  from this [OF assms(5)] show ?thesis by (simp add: exhausted_def)
qed

text \<open>The host that passes no \<^verbatim>\<open>imageTypes\<close>, on a service that answers 404 to everything.\<close>

lemma responses_not_found:
  "list_all (\<lambda>r. \<not> probe_ok r) (responses not_found_service hist reqs)"
  by (induction reqs arbitrary: hist) (simp_all add: not_found_service_def probe_ok_def)

lemma typesToCheck_default: "typesToCheck default_config = DEFAULT_IMAGE_TYPES"
  by (simp add: typesToCheck_def default_config_def DROPDOWN_IMAGE_TYPES_def
        DEFAULT_IMAGE_TYPES_def)

lemma probes_default:
  "map (probe_request default_config) (typesToCheck default_config) = default_probes"
  by (simp add: probe_request_def typesToCheck_def default_config_def example_config_def
        buildImageUrl_def DROPDOWN_IMAGE_TYPES_def DEFAULT_IMAGE_TYPES_def default_probes_def)

lemma fetches_default:
  "map (image_request default_config) DEFAULT_IMAGE_TYPES = default_fetches"
  by (simp add: image_request_def default_config_def example_config_def
        buildImageUrl_def DEFAULT_IMAGE_TYPES_def default_fetches_def)

lemma guard_default: "truthy (familyAcc default_config)" "imageTypes default_config \<noteq> []"
  by (simp_all add: default_config_def example_config_def DEFAULT_IMAGE_TYPES_def)

lemma run_not_found:
  "initial_load_effect not_found_service default_config (s, hist) =
     (s\<lparr> availableTypes := [], imageStatus := Error, errorMessage := no_images_message \<rparr>,
      hist @ default_probes)"
  using no_images_error [OF guard_default, where net = not_found_service and hist = hist
          and s = s]
        responses_not_found [of hist "map (probe_request default_config)
                                        (typesToCheck default_config)"]
  by (simp add: probes_default)

lemma mounted_not_found:
  "mounted not_found_service default_config = (failed_state, initial_viewports, default_probes)"
  by (simp add: mounted_def run_not_found failed_state_def toggle_reset_effect_def)

lemma rerun_not_found:
  "step not_found_service default_config (failed_state, v, hist)
     (failed_state, release_all v, hist @ default_probes)"
proof -
  have p: "imageTypes_prop default_config = None" by (simp add: default_config_def)
  have r: "initial_load_effect not_found_service default_config (failed_state, hist) =
             (failed_state, hist @ default_probes)"
    by (simp add: run_not_found failed_state_def)
  from initial_load_again [OF p r, of v] show ?thesis by (simp add: toggle_reset_effect_def)
qed

lemma release_all_initial: "release_all initial_viewports = initial_viewports"
  by (simp add: release_all_def release_def initial_viewports_def)

text \<open>
  The same host on a service where every probe succeeds and every fetch fails. A run ends
  in status \<open>Error\<close> with the fixed message after eight probes and eight fetches, and the
  next run issues all sixteen again. (In the model a run is one step; in the browser the
  next run starts as soon as \<^verbatim>\<open>setAvailableTypes\<close> has been committed, while the fetches
  of the run before are still under way.)
\<close>

lemma responses_head_only_probes:
  "responses head_only_service hist (map (probe_request cfg) types) =
     map (\<lambda>t. Some \<lparr> ok = True, status = 200, body = Some [], content_type = None \<rparr>) types"
  by (induction types arbitrary: hist) (simp_all add: head_only_service_def probe_request_def)

lemma responses_head_only_fetches:
  "responses head_only_service hist (map (image_request cfg) types) = map (\<lambda>t. None) types"
  by (induction types arbitrary: hist) (simp_all add: head_only_service_def image_request_def)

lemma available_head_only:
  "available_among head_only_service cfg hist types = types"
proof -
  have "filter (\<lambda>tr. probe_ok (snd tr))
          (zip types (map (\<lambda>t. Some \<lparr> ok = True, status = 200, body = Some [],
                                        content_type = None \<rparr>) types)) =
        zip types (map (\<lambda>t. Some \<lparr> ok = True, status = 200, body = Some [],
                                        content_type = None \<rparr>) types)"
    by (rule filter_True) (auto simp: probe_ok_def dest!: set_zip_rightD)
  then show ?thesis by (simp add: available_among_def responses_head_only_probes)
qed

lemma run_head_only:
  "initial_load_effect head_only_service default_config (s, hist) =
     (s\<lparr> availableTypes := DEFAULT_IMAGE_TYPES, imageStatus := Error,
         isImageNotAvailable := False, errorMessage := no_images_message \<rparr>,
      hist @ default_probes @ default_fetches)"
proof -
  have ne: "available_among head_only_service default_config hist
              (typesToCheck default_config) \<noteq> []"
    by (simp add: available_head_only typesToCheck_default DEFAULT_IMAGE_TYPES_def)
  have f: "list_all (\<lambda>r. \<not> recognized_image r)
        (responses head_only_service
           (hist @ map (probe_request default_config) (typesToCheck default_config))
           (map (image_request default_config)
              (available_among head_only_service default_config hist
                 (typesToCheck default_config))))"
    by (simp add: responses_head_only_fetches recognized_image_def list_all_iff)
  from no_images_error [OF guard_default, where net = head_only_service and hist = hist
          and s = s and types = "[]", THEN conjunct2, THEN conjunct2, THEN mp, OF conjI [OF ne f]]
  show ?thesis
    using probes_default by (simp add: available_head_only typesToCheck_default fetches_default)
qed

lemma fetch_failures_repeat:
  "mounted head_only_service default_config =
     (unloadable_state, initial_viewports, default_probes @ default_fetches) \<and>
   step head_only_service default_config
     (unloadable_state, initial_viewports, default_probes @ default_fetches)
     (unloadable_state, initial_viewports,
      default_probes @ default_fetches @ default_probes @ default_fetches)"
proof
  show "mounted head_only_service default_config =
     (unloadable_state, initial_viewports, default_probes @ default_fetches)"
    by (simp add: mounted_def run_head_only unloadable_state_def toggle_reset_effect_def
          initial_state_def)
  have p: "imageTypes_prop default_config = None" by (simp add: default_config_def)
  have r: "initial_load_effect head_only_service default_config
             (unloadable_state, default_probes @ default_fetches) =
           (unloadable_state,
            (default_probes @ default_fetches) @ default_probes @ default_fetches)"
    by (simp only: run_head_only) (simp add: unloadable_state_def initial_state_def)
  from initial_load_again [OF p r, of initial_viewports]
  show "step head_only_service default_config
     (unloadable_state, initial_viewports, default_probes @ default_fetches)
     (unloadable_state, initial_viewports,
      default_probes @ default_fetches @ default_probes @ default_fetches)"
    by (simp add: toggle_reset_effect_def release_all_initial)
qed

text \<open>
  C3. The failed initialization is not final when the host passes no \<^verbatim>\<open>imageTypes\<close>. For
  family \<open>RF00001\<close> on a service that answers every request with status 404, the
  component mounts into status \<open>Error\<close> with the fixed message after the eight HEAD probes
  of the default list and no GET; the array stored by \<^verbatim>\<open>setAvailableTypes\<close> causes a render,
  the default list of that render is a new array, and the initial-load effect runs again:
  the component is in the same state with the eight probes issued a second time, and for
  every \<open>k\<close> a configuration in which they have been issued \<open>k + 1\<close> times is reachable.
\<close>

theorem initialization_repeats:
  "imageTypes_prop default_config = None \<and>
   imageStatus failed_state = Error \<and> errorMessage failed_state = no_images_message \<and>
   mounted not_found_service default_config = (failed_state, initial_viewports, default_probes) \<and>
   step not_found_service default_config
     (failed_state, initial_viewports, default_probes)
     (failed_state, initial_viewports, default_probes @ default_probes) \<and>
   (\<forall>k. reachable not_found_service default_config
          (failed_state, initial_viewports, concat (replicate (Suc k) default_probes)))"
proof (intro conjI allI)
  show "imageTypes_prop default_config = None" by (simp add: default_config_def)
  show "imageStatus failed_state = Error" by (simp add: failed_state_def)
  show "errorMessage failed_state = no_images_message" by (simp add: failed_state_def)
  show m: "mounted not_found_service default_config =
             (failed_state, initial_viewports, default_probes)"
    by (rule mounted_not_found)
  show "step not_found_service default_config
     (failed_state, initial_viewports, default_probes)
     (failed_state, initial_viewports, default_probes @ default_probes)"
    using rerun_not_found [of initial_viewports default_probes]
    by (simp add: release_all_initial)
  fix k
  show "reachable not_found_service default_config
          (failed_state, initial_viewports, concat (replicate (Suc k) default_probes))"
  proof (induction k)
    case 0
    show ?case using reach_mounted [of not_found_service default_config] by (simp add: m)
  next
    case (Suc k)
    have c: "concat (replicate (Suc k) default_probes) @ default_probes =
             concat (replicate (Suc (Suc k)) default_probes)"
      by (induction k) simp_all
    from reach_step [OF Suc rerun_not_found
                            [of initial_viewports "concat (replicate (Suc k) default_probes)"]]
    show ?case unfolding c by (simp add: release_all_initial)
  qed
qed


section \<open>Placeholder detection\<close>

lemma loadImage_raster:
  assumes "net hist (image_request cfg type) = Some resp" and "ok resp"
      and "body resp = Some text" and "\<not> str_includes text ''<svg''"
      and "content_type resp = Some ct" and "str_includes ct ''image/png''"
  shows "loadImage net cfg type hist =
           (Some \<lparr> content = text, isAvailable = (type = ''rchie''), isSvg = False \<rparr>,
            hist @ [image_request cfg type])"
  using assms by (simp add: loadImage_def image_request_def Let_def)

text \<open>
  C2. Let the GET for a type be answered ok with a readable body that does not hold the
  vector root tag, under a content type that holds \<^verbatim>\<open>image/png\<close>. Then \<^verbatim>\<open>loadImage\<close>
  returns a result whose \<^verbatim>\<open>isAvailable\<close> is true exactly for the type \<^verbatim>\<open>rchie\<close>. Through
  the loader and through a type switch the status becomes \<open>Loaded\<close>, never \<open>Error\<close>; for
  every type other than \<^verbatim>\<open>rchie\<close> the placeholder flag is set and the "not available"
  panel is what is rendered, the error panel is not; for \<^verbatim>\<open>rchie\<close> the flag is not set
  and the raster panel is rendered.
\<close>

theorem raster_placeholder:
  assumes "net hist (image_request cfg type) = Some resp" and "ok resp"
      and "body resp = Some text" and "\<not> str_includes text ''<svg''"
      and "content_type resp = Some ct" and "str_includes ct ''image/png''"
  shows "fst (loadImage net cfg type hist) =
           Some \<lparr> content = text, isAvailable = (type = ''rchie''), isSvg = False \<rparr>
         \<and>
         (case tryLoadImage net cfg (type # rest) (s, hist) of
            (b, s', hist') \<Rightarrow>
              b \<and> imageStatus s' = Loaded \<and> selectedImageType s' = type \<and>
              isImageNotAvailable s' = (type \<noteq> ''rchie'') \<and>
              ss_not_available s' = (type \<noteq> ''rchie'') \<and>
              ss_rchie_container s' = (type = ''rchie'') \<and>
              ss_error s' = None)
         \<and>
         (type \<noteq> selectedImageType s \<longrightarrow>
          (case handleImageTypeChange net cfg type (s, v, hist) of
             (s', v', hist') \<Rightarrow>
               imageStatus s' = Loaded \<and> selectedImageType s' = type \<and>
               isImageNotAvailable s' = (type \<noteq> ''rchie'') \<and>
               ss_not_available s' = (type \<noteq> ''rchie'') \<and>
               ss_rchie_container s' = (type = ''rchie'') \<and>
               ss_error s' = None))"
proof -
  note li = loadImage_raster [of net hist cfg type, OF assms]
  have a: "fst (loadImage net cfg type hist) =
           Some \<lparr> content = text, isAvailable = (type = ''rchie''), isSvg = False \<rparr>"
    by (simp add: li)
  have b: "case tryLoadImage net cfg (type # rest) (s, hist) of
            (b, s', hist') \<Rightarrow>
              b \<and> imageStatus s' = Loaded \<and> selectedImageType s' = type \<and>
              isImageNotAvailable s' = (type \<noteq> ''rchie'') \<and>
              ss_not_available s' = (type \<noteq> ''rchie'') \<and>
              ss_rchie_container s' = (type = ''rchie'') \<and>
              ss_error s' = None"
    by (simp add: tryLoadImage_def li ss_not_available_def ss_rchie_container_def ss_error_def
          isRchieType_def)
  have c: "type \<noteq> selectedImageType s \<longrightarrow>
          (case handleImageTypeChange net cfg type (s, v, hist) of
             (s', v', hist') \<Rightarrow>
               imageStatus s' = Loaded \<and> selectedImageType s' = type \<and>
               isImageNotAvailable s' = (type \<noteq> ''rchie'') \<and>
               ss_not_available s' = (type \<noteq> ''rchie'') \<and>
               ss_rchie_container s' = (type = ''rchie'') \<and>
               ss_error s' = None)"
    by (simp add: handleImageTypeChange_def li ss_not_available_def ss_rchie_container_def
          ss_error_def isRchieType_def Let_def)
  from a b c show ?thesis by blast
qed

lemma example_norm:
  "example_service [] (image_request example_config ''norm'') = Some png_response"
  by (simp add: example_service_def image_request_example)

lemma example_rchie:
  "example_service [] (image_request example_config ''rchie'') = Some png_response"
  by (simp add: example_service_def image_request_example)

theorem raster_placeholder_witness:
  "ss_not_available
     (fst (snd (tryLoadImage example_service example_config [''norm'', ''cons'']
                  (initial_state example_config, [])))) \<and>
   ss_error
     (fst (snd (tryLoadImage example_service example_config [''norm'', ''cons'']
                  (initial_state example_config, [])))) = None \<and>
   ss_rchie_container
     (fst (handleImageTypeChange example_service example_config ''rchie''
             (initial_state example_config, initial_viewports, []))) \<and>
   \<not> ss_not_available
     (fst (handleImageTypeChange example_service example_config ''rchie''
             (initial_state example_config, initial_viewports, [])))"
proof -
  have h: "ok png_response" "body png_response = Some ''PNG''" "\<not> str_includes ''PNG'' ''<svg''"
    "content_type png_response = Some ''image/png''" "str_includes ''image/png'' ''image/png''"
    by (simp_all add: png_response_def)
  have sel: "''rchie'' \<noteq> selectedImageType (initial_state example_config)"
    by (simp add: initial_state_def example_config_def)
  note n = raster_placeholder [where net = example_service and hist = "[]"
              and cfg = example_config and type = "''norm''" and rest = "[''cons'']"
              and s = "initial_state example_config" and v = initial_viewports,
              OF example_norm h]
  note r = raster_placeholder [where net = example_service and hist = "[]"
              and cfg = example_config and type = "''rchie''" and rest = "[]"
              and s = "initial_state example_config" and v = initial_viewports,
              OF example_rchie h]
  from n [THEN conjunct2, THEN conjunct1] r [THEN conjunct2, THEN conjunct2, THEN mp, OF sel]
  show ?thesis by (auto split: prod.splits)
qed


section \<open>The dropdown filter\<close>

lemma typesToCheck_subset:
  "set (typesToCheck cfg) \<subseteq> set DROPDOWN_IMAGE_TYPES \<inter> set (imageTypes cfg)"
  by (auto simp: typesToCheck_def)

lemma available_dropdown:
  "set (available_among net cfg hist (typesToCheck cfg))
     \<subseteq> set DROPDOWN_IMAGE_TYPES \<inter> set (imageTypes cfg)"
  using available_among_subset [of net cfg hist "typesToCheck cfg"] typesToCheck_subset [of cfg]
  by blast

lemma buildImageUrl_inj: "buildImageUrl cfg t = buildImageUrl cfg t' \<longleftrightarrow> t = t'"
  by (simp add: buildImageUrl_def)

lemma tryLoadImage_trace:
  assumes "tryLoadImage net cfg types (s, hist) = (b, s', hist')"
  shows "\<exists>k \<le> length types. hist' = hist @ map (image_request cfg) (take k types) \<and>
     (if b then selectedImageType s' \<in> set types \<and> imageStatus s' = Loaded
      else selectedImageType s' = selectedImageType s \<and> imageStatus s' = Error
           \<and> errorMessage s' = no_images_message)
     \<and> availableTypes s' = availableTypes s"
proof -
  from assms have "tryLoadImage_loop net cfg types
      (s\<lparr> imageStatus := Loading, isImageNotAvailable := False \<rparr>, hist) = (b, s', hist')"
    by (simp add: tryLoadImage_def)
  from tryLoadImage_loop_trace [OF this] show ?thesis by (cases b) auto
qed

lemma initial_load_effect_trace:
  assumes "initial_load_effect net cfg (s, hist) = (s', hist')"
  shows "(\<exists>k. hist' = hist @
            (if truthy (familyAcc cfg) \<and> imageTypes cfg \<noteq> []
             then map (probe_request cfg) (typesToCheck cfg) @
                  map (image_request cfg)
                    (take k (available_among net cfg hist (typesToCheck cfg)))
             else []))
         \<and> (truthy (familyAcc cfg) \<and> imageTypes cfg \<noteq> [] \<longrightarrow>
              availableTypes s' = available_among net cfg hist (typesToCheck cfg))
         \<and> (selectedImageType s' \<noteq> selectedImageType s \<longrightarrow>
              selectedImageType s' \<in> set (available_among net cfg hist (typesToCheck cfg)))"
proof (cases "truthy (familyAcc cfg) \<and> imageTypes cfg \<noteq> []")
  case False
  with assms have "s' = s" "hist' = hist" by (auto simp: initial_load_effect_def)
  with False show ?thesis by auto
next
  case True
  let ?av = "available_among net cfg hist (typesToCheck cfg)"
  let ?h1 = "hist @ map (probe_request cfg) (typesToCheck cfg)"
  from True assms have init: "initializeImages net cfg (s, hist) = (s', hist')"
    by (simp add: initial_load_effect_def)
  show ?thesis
  proof (cases "?av = []")
    case av: True
    from init initializeImages_none_available [OF av, of s]
    have "s' = s\<lparr> availableTypes := [], imageStatus := Error, errorMessage := no_images_message \<rparr>"
      "hist' = ?h1" by auto
    with True av show ?thesis by auto
  next
    case av: False
    from init initializeImages_some_available [OF refl av, of s]
    have "snd (tryLoadImage net cfg ?av (s\<lparr> availableTypes := ?av \<rparr>, ?h1)) = (s', hist')"
      by simp
    then obtain b where
      "tryLoadImage net cfg ?av (s\<lparr> availableTypes := ?av \<rparr>, ?h1) = (b, s', hist')"
      by (metis prod.collapse)
    from tryLoadImage_trace [OF this]
    obtain k where "hist' = ?h1 @ map (image_request cfg) (take k ?av)"
      "if b then selectedImageType s' \<in> set ?av \<and> imageStatus s' = Loaded
       else selectedImageType s' = selectedImageType (s\<lparr> availableTypes := ?av \<rparr>)
            \<and> imageStatus s' = Error \<and> errorMessage s' = no_images_message"
      "availableTypes s' = availableTypes (s\<lparr> availableTypes := ?av \<rparr>)"
      by blast
    with True show ?thesis by (auto split: if_splits)
  qed
qed

text \<open>
  C9. For every configuration, service and starting state, the initial-load effect issues,
  when it runs, the HEAD probes for exactly the configured types that belong to
  \<^verbatim>\<open>DROPDOWN_IMAGE_TYPES\<close>, in configured order, followed by GETs for a prefix of those
  that probed as available; it issues neither a probe nor a fetch for any type outside
  that list. The available types it stores, and the types offered by the selector, belong
  to the list; and whenever the effect changes the selected type, the new selected type is
  a configured type of the list. (The selected type with which the component is mounted,
  \<^verbatim>\<open>imageTypes[0] || 'rscape'\<close>, is not set by initialization.)
\<close>

theorem only_dropdown_types_probed:
  "case initial_load_effect net cfg (s, hist) of
     (s', hist') \<Rightarrow>
       (\<exists>k. hist' = hist @
            (if truthy (familyAcc cfg) \<and> imageTypes cfg \<noteq> []
             then map (probe_request cfg) (typesToCheck cfg) @
                  map (image_request cfg)
                    (take k (available_among net cfg hist (typesToCheck cfg)))
             else []))
       \<and> (\<forall>t. t \<notin> set DROPDOWN_IMAGE_TYPES \<longrightarrow>
              probe_request cfg t \<notin> set (drop (length hist) hist') \<and>
              image_request cfg t \<notin> set (drop (length hist) hist'))
       \<and> (truthy (familyAcc cfg) \<and> imageTypes cfg \<noteq> [] \<longrightarrow>
              set (availableTypes s') \<subseteq> set DROPDOWN_IMAGE_TYPES \<inter> set (imageTypes cfg))
       \<and> set (dropdownTypes s') \<subseteq> set DROPDOWN_IMAGE_TYPES
       \<and> (selectedImageType s' \<noteq> selectedImageType s \<longrightarrow>
              selectedImageType s' \<in> set DROPDOWN_IMAGE_TYPES \<inter> set (imageTypes cfg))"
proof -
  obtain s' hist' where r: "initial_load_effect net cfg (s, hist) = (s', hist')"
    by (metis prod.collapse)
  let ?av = "available_among net cfg hist (typesToCheck cfg)"
  note tr = initial_load_effect_trace [OF r]
  from tr obtain k where k: "hist' = hist @
            (if truthy (familyAcc cfg) \<and> imageTypes cfg \<noteq> []
             then map (probe_request cfg) (typesToCheck cfg) @
                  map (image_request cfg) (take k ?av)
             else [])" by blast
  have sub: "set (take k ?av) \<subseteq> set DROPDOWN_IMAGE_TYPES"
    using available_dropdown [of net cfg hist] set_take_subset [of k ?av] by blast
  have b: "\<forall>t. t \<notin> set DROPDOWN_IMAGE_TYPES \<longrightarrow>
              probe_request cfg t \<notin> set (drop (length hist) hist') \<and>
              image_request cfg t \<notin> set (drop (length hist) hist')"
  proof (intro allI impI)
    fix t assume t: "t \<notin> set DROPDOWN_IMAGE_TYPES"
    have "t \<notin> set (typesToCheck cfg)" using t typesToCheck_subset [of cfg] by blast
    moreover have "t \<notin> set (take k ?av)" using t sub by blast
    ultimately show "probe_request cfg t \<notin> set (drop (length hist) hist') \<and>
              image_request cfg t \<notin> set (drop (length hist) hist')"
      unfolding k by (auto simp: probe_request_def image_request_def buildImageUrl_inj)
  qed
  have c: "truthy (familyAcc cfg) \<and> imageTypes cfg \<noteq> [] \<longrightarrow>
              set (availableTypes s') \<subseteq> set DROPDOWN_IMAGE_TYPES \<inter> set (imageTypes cfg)"
    using tr available_dropdown [of net cfg hist] by auto
  have d: "set (dropdownTypes s') \<subseteq> set DROPDOWN_IMAGE_TYPES"
    by (auto simp: dropdownTypes_def)
  have e: "selectedImageType s' \<noteq> selectedImageType s \<longrightarrow>
              selectedImageType s' \<in> set DROPDOWN_IMAGE_TYPES \<inter> set (imageTypes cfg)"
    using tr available_dropdown [of net cfg hist] by blast
  from k b c d e show ?thesis unfolding r by (simp del: set_append) blast
qed


lemma mixed_run:
  "initial_load_effect example_service mixed_config (initial_state mixed_config, []) =
     ((initial_state mixed_config)
        \<lparr> availableTypes := [''cons'', ''norm''], svgContent := ''<svg></svg>'',
          selectedImageType := ''cons'', isImageNotAvailable := False, imageStatus := Loaded \<rparr>,
      [Fetch HEAD ''rfam/RF00001/image/cons'', Fetch HEAD ''rfam/RF00001/image/norm'',
       Fetch GET ''rfam/RF00001/image/cons''])"
  by (simp add: initial_load_effect_def initializeImages_def typesToCheck_def
        DROPDOWN_IMAGE_TYPES_def mixed_config_def checkImageAvailability_def
        buildImageUrl_def example_service_def svg_response_def tryLoadImage_def
        loadImage_def Let_def)

theorem only_dropdown_types_probed_witness:
  "selectedImageType (initial_state mixed_config) = ''rscape-cyk'' \<and>
   selectedImageType
     (fst (initial_load_effect example_service mixed_config (initial_state mixed_config, [])))
     \<in> set DROPDOWN_IMAGE_TYPES \<inter> set (imageTypes mixed_config) \<and>
   probe_request mixed_config ''rscape-cyk''
     \<notin> set (snd (initial_load_effect example_service mixed_config
                    (initial_state mixed_config, []))) \<and>
   probe_request mixed_config ''seqcons''
     \<notin> set (snd (initial_load_effect example_service mixed_config
                    (initial_state mixed_config, [])))"
proof -
  have i: "selectedImageType (initial_state mixed_config) = ''rscape-cyk''"
    by (simp add: initial_state_def mixed_config_def)
  have ch: "selectedImageType
     (fst (initial_load_effect example_service mixed_config (initial_state mixed_config, [])))
     \<noteq> selectedImageType (initial_state mixed_config)"
    by (simp add: mixed_run i)
  have nd: "''rscape-cyk'' \<notin> set DROPDOWN_IMAGE_TYPES" "''seqcons'' \<notin> set DROPDOWN_IMAGE_TYPES"
    by (simp_all add: DROPDOWN_IMAGE_TYPES_def)
  from only_dropdown_types_probed
         [where net = example_service and cfg = mixed_config
            and s = "initial_state mixed_config" and hist = "[]"] ch nd i
  show ?thesis by (auto split: prod.splits)
qed


section \<open>Download\<close>

lemma downloadImage_named:
  assumes "svgContent s \<noteq> []"
  shows "downloadImage cfg s =
           Some \<lparr> blob_type =
                    (if str_includes (svgContent s) ''<svg''
                     then ''image/svg+xml'' else ''image/png''),
                  blob_content = svgContent s,
                  filename =
                    Some (interpolate (familyAcc cfg) @ ''_'' @ selectedImageType s @
                          (if str_includes (svgContent s) ''<svg''
                           then ''_structure.svg'' else ''_structure.png'')) \<rparr>"
  using assms by (simp add: downloadImage_def Let_def)

lemma downloadImage_src_vector:
  assumes "str_includes (svgContent s) ''<svg''"
  shows "downloadImage_src cfg s =
           Some \<lparr> blob_type = ''image/svg+xml'', blob_content = svgContent s,
                  filename = Some (interpolate (familyAcc cfg) @ ''_'' @ selectedImageType s @
                                   ''_structure.svg'') \<rparr>"
proof -
  from assms have "svgContent s \<noteq> []" by auto
  with assms show ?thesis by (simp add: downloadImage_src_def)
qed

text \<open>
  C8. The download of a raster content is not named after the entity and the type in
  \<^verbatim>\<open>src/SecondaryStructures.jsx\<close>: with the service answering the GET for \<^verbatim>\<open>rchie\<close> by a
  PNG, the loader of that file ends in status \<open>Loaded\<close> with the PNG body as content, the
  download button is rendered, and \<^verbatim>\<open>downloadImage\<close> builds a PNG blob whose \<^verbatim>\<open>download\<close>
  attribute is \<^verbatim>\<open>null\<close>. On the same state the other copy of \<^verbatim>\<open>downloadImage\<close> names the
  file \<^verbatim>\<open>RF00001_rchie_structure.png\<close>.
\<close>

theorem downloadImage_src_raster_unnamed:
  "(case tryLoadImage_src example_service example_config [''rchie'']
           (initial_state example_config, []) of
      (b, s', hist') \<Rightarrow>
        b \<and> imageStatus s' = Loaded \<and> svgContent s' = ''PNG'' \<and>
        selectedImageType s' = ''rchie'' \<and> download_button_rendered_src s' \<and>
        downloadImage_src example_config s' =
          Some \<lparr> blob_type = ''image/png'', blob_content = ''PNG'', filename = None \<rparr> \<and>
        downloadImage example_config s' =
          Some \<lparr> blob_type = ''image/png'', blob_content = ''PNG'',
                 filename = Some ''RF00001_rchie_structure.png'' \<rparr>)"
  by (simp add: tryLoadImage_src_def loadImage_src_def Let_def example_service_def
        example_config_def buildImageUrl_def png_response_def download_button_rendered_src_def
        downloadImage_src_def downloadImage_def)

section \<open>Magnifier\<close>

lemma digit_char_value:
  assumes "d < 10"
  shows "digit_value (digit_char d) = Some d" and "digit_char d \<noteq> CHR '' ''"
proof -
  from assms have "d \<in> {0, 1, 2, 3, 4, 5, 6, 7, 8, 9}" by auto
  then show "digit_value (digit_char d) = Some d" and "digit_char d \<noteq> CHR '' ''"
    by (auto simp: digit_char_def digit_value_def)
qed

lemma digits_of_digits: "c \<in> set (digits_of n) \<Longrightarrow> is_digit_of 10 c \<and> c \<noteq> CHR '' ''"
proof (induction n rule: digits_of.induct)
  case (1 n)
  show ?case
  proof (cases "n < 10")
    case True
    with "1.prems" have "c = digit_char n" by (simp add: digits_of.simps [of n])
    with True show ?thesis by (simp add: is_digit_of_def digit_char_value)
  next
    case False
    with "1.prems" have "c \<in> set (digits_of (n div 10)) \<or> c = digit_char (n mod 10)"
      by (auto simp: digits_of.simps [of n])
    then show ?thesis
    proof
      assume "c \<in> set (digits_of (n div 10))"
      with "1.IH" False show ?thesis by simp
    next
      assume "c = digit_char (n mod 10)"
      then show ?thesis by (simp add: is_digit_of_def digit_char_value)
    qed
  qed
qed

lemma digits_of_nonempty: "digits_of n \<noteq> []"
  by (simp add: digits_of.simps [of n])

lemma digits_value_snoc:
  "digits_value r (ds @ [c]) =
     digits_value r ds * r + (case digit_value c of None \<Rightarrow> 0 | Some d \<Rightarrow> d)"
  by (simp add: digits_value_def)

lemma digits_value_digits_of: "digits_value 10 (digits_of n) = n"
proof (induction n rule: digits_of.induct)
  case (1 n)
  show ?case
  proof (cases "n < 10")
    case True
    then show ?thesis
      by (simp add: digits_of.simps [of n] digits_value_def digit_char_value)
  next
    case False
    with "1.IH" show ?thesis
      by (simp add: digits_of.simps [of n] digits_value_snoc digit_char_value)
  qed
qed

lemma css_px_minus_digits: "css_px (''-'' @ digits_of n @ ''px'') = Some (- int n)"
proof -
  have d: "\<forall>c \<in> set (digits_of n). is_digit_of 10 c" using digits_of_digits by blast
  have p: "\<not> is_digit_of 10 CHR ''p''" by (simp add: is_digit_of_def digit_value_def)
  have t: "takeWhile (is_digit_of 10) (digits_of n @ ''px'') = digits_of n"
    using d p by (simp add: takeWhile_append2)
  have r: "dropWhile (is_digit_of 10) (digits_of n @ ''px'') = ''px''"
    using d p by (simp add: dropWhile_append2)
  show ?thesis
    by (simp add: css_px_def t r digits_of_nonempty digits_value_digits_of)
qed

lemma background_position_nonnegative:
  assumes "0 \<le> a" and "0 \<le> b"
  shows "css_background_position
           (''-'' @ number_to_string (Some a) @ ''px -'' @ number_to_string (Some b) @ ''px'')
         = Some (- a, - b)"
proof -
  let ?A = "digits_of (nat a)" and ?B = "digits_of (nat b)"
  have na: "number_to_string (Some a) = ?A" and nb: "number_to_string (Some b) = ?B"
    using assms by (simp_all add: number_to_string_def)
  have ns: "\<forall>c \<in> set (''-'' @ ?A @ ''px''). c \<noteq> CHR '' ''"
    using digits_of_digits [of _ "nat a"] by auto
  have split: "''-'' @ ?A @ ''px -'' @ ?B @ ''px'' = (''-'' @ ?A @ ''px'') @ CHR '' '' # (''-'' @ ?B @ ''px'')"
    by simp
  have h: "takeWhile (\<lambda>c. c \<noteq> CHR '' '') (''-'' @ ?A @ ''px -'' @ ?B @ ''px'') = ''-'' @ ?A @ ''px''"
    unfolding split using ns by (subst takeWhile_append2) auto
  have v: "drop 1 (dropWhile (\<lambda>c. c \<noteq> CHR '' '') (''-'' @ ?A @ ''px -'' @ ?B @ ''px''))
             = ''-'' @ ?B @ ''px''"
    unfolding split using ns by (subst dropWhile_append2) auto
  show ?thesis
    using assms
    by (simp only: na nb css_background_position_def Let_def h v css_px_minus_digits) simp
qed

lemma handleRchieMouseMove_loupe:
  assumes "selectedImageType s = ''rchie''"
  shows "ss_loupe cfg (handleRchieMouseMove s (Some r) e) (Some r) =
           Some \<lparr> style_left = clientX e - 100,
                  style_top = clientY e - 100,
                  backgroundImage = ''url('' @ buildImageUrl cfg ''rchie'' @ '')'',
                  backgroundPosition =
                    ''-'' @ number_to_string (Some ((clientX e - rect_left r) * 2 - 100))
                    @ ''px -'' @ number_to_string (Some ((clientY e - rect_top r) * 2 - 100))
                    @ ''px'' \<rparr>"
  using assms by (simp add: ss_loupe_def handleRchieMouseMove_def isRchieType_def Let_def)

text \<open>
  Away from the left and upper edge of the image (local coordinates of at least 50), the
  published value is a valid position: the background is shifted left and up by 2 times
  the local coordinate minus 100.
\<close>

lemma loupe_offset_inside:
  assumes "selectedImageType s = ''rchie''"
      and "50 \<le> clientX e - rect_left r" and "50 \<le> clientY e - rect_top r"
  shows "\<exists>st. ss_loupe cfg (handleRchieMouseMove s (Some r) e) (Some r) = Some st \<and>
              css_background_position (backgroundPosition st) =
                Some (- (2 * (clientX e - rect_left r) - 100),
                      - (2 * (clientY e - rect_top r) - 100))"
proof -
  have a: "0 \<le> (clientX e - rect_left r) * 2 - 100" and b: "0 \<le> (clientY e - rect_top r) * 2 - 100"
    using assms(2,3) by simp_all
  from background_position_nonnegative [OF a b] show ?thesis
    by (simp add: handleRchieMouseMove_loupe [OF assms(1)] mult.commute)
qed

text \<open>
  C7. The published offset is not 2 times the local coordinate minus 100 at every pointer
  position. With the pointer 10 pixels right of the left edge of the image (and 80 below
  its upper edge), the number interpolated for the horizontal axis is \<open>-80\<close>, the template
  puts its own minus sign before it, and the value handed over as \<^verbatim>\<open>backgroundPosition\<close> is
  \<^verbatim>\<open>--80px -60px\<close>, which is not a position: no offset is published there.
\<close>

theorem loupe_offset_near_edge:
  "ss_loupe example_config
     (handleRchieMouseMove rchie_state (Some \<lparr> rect_left = 10, rect_top = 20 \<rparr>)
        \<lparr> clientX = 20, clientY = 100 \<rparr>)
     (Some \<lparr> rect_left = 10, rect_top = 20 \<rparr>) =
     Some \<lparr> style_left = - 80, style_top = 0,
            backgroundImage = ''url(rfam/RF00001/image/rchie)'',
            backgroundPosition = ''--80px -60px'' \<rparr> \<and>
   css_background_position ''--80px -60px'' = None"
proof -
  have n: "number_to_string (Some (- 80)) = ''-80''" "number_to_string (Some 60) = ''60''"
    by (simp_all add: number_to_string_def digits_of.simps [of 80] digits_of.simps [of 8]
          digits_of.simps [of 60] digits_of.simps [of 6] digit_char_def)
  have sel: "selectedImageType rchie_state = ''rchie''" by (simp add: rchie_state_def)
  have "ss_loupe example_config
     (handleRchieMouseMove rchie_state (Some \<lparr> rect_left = 10, rect_top = 20 \<rparr>)
        \<lparr> clientX = 20, clientY = 100 \<rparr>)
     (Some \<lparr> rect_left = 10, rect_top = 20 \<rparr>) =
     Some \<lparr> style_left = - 80, style_top = 0,
            backgroundImage = ''url(rfam/RF00001/image/rchie)'',
            backgroundPosition = ''--80px -60px'' \<rparr>"
    by (simp add: handleRchieMouseMove_loupe [OF sel] n buildImageUrl_def example_config_def)
  moreover have "css_background_position ''--80px -60px'' = None"
    by (simp add: css_background_position_def css_px_def is_digit_of_def digit_value_def)
  ultimately show ?thesis by blast
qed

section \<open>Initialization that never starts\<close>

lemma idle_mounted:
  assumes "\<not> truthy (familyAcc cfg) \<or> imageTypes cfg = []"
  shows "idle (mounted net cfg)"
  using assms
  by (auto simp: idle_def mounted_def initial_load_effect_def toggle_reset_effect_def
        initial_state_def)

lemma idle_step:
  assumes "step net cfg c c'" and "idle c"
      and "\<not> truthy (familyAcc cfg) \<or> imageTypes cfg = []"
  shows "idle c'"
  using assms
proof (induction rule: step.induct)
  case (select_change s t v hist s' v' hist')
  then show ?case by (simp add: idle_def select_rendered_def dropdownTypes_def)
next
  case (load_cyk s hist s' hist' v)
  then show ?case by (simp add: idle_def)
next
  case (main_timer_fires s svgElement library_ok v s' v' svg' hist)
  then show ?case by (simp add: idle_def main_timer_scheduled_def)
next
  case (cyk_timer_fires s svgElement library_ok v s' v' svg' hist)
  then show ?case by (simp add: idle_def cyk_timer_scheduled_def)
next
  case (svg_click s svgElement s' svg' v hist)
  then show ?case by (simp add: idle_def ss_svg_wrapper_def)
next
  case (rchie_mouse_move s v hist rchieImageRef e)
  then show ?case by (simp add: idle_def ss_rchie_container_def)
next
  case (rchie_mouse_leave s v hist)
  then show ?case by (simp add: idle_def ss_rchie_container_def)
next
  case (unmount s v hist)
  then show ?case by (simp add: idle_def)
next
  case (initial_load_again s hist s' hist' v)
  then have "s' = s" "hist' = hist" by (auto simp: initial_load_effect_def)
  with initial_load_again show ?case by (simp add: idle_def toggle_reset_effect_def)
qed

lemma idle_reachable:
  assumes "\<not> truthy (familyAcc cfg) \<or> imageTypes cfg = []" and "reachable net cfg c"
  shows "idle c"
  using assms(2)
proof (induction rule: reachable.induct)
  case reach_mounted
  show ?case using assms(1) by (rule idle_mounted)
next
  case (reach_step c c')
  then show ?case using idle_step assms(1) by blast
qed

text \<open>
  C10. If the family accession is absent (or empty) or the configured list is empty, the
  initial-load effect does nothing: it issues no request and leaves the state as it is.
  From the mounted component, whatever events and effects follow, the status is
  \<open>Loading\<close> and no request has been issued: the status never becomes \<open>Loaded\<close> or
  \<open>Error\<close>.
\<close>

theorem initialization_never_starts:
  assumes "\<not> truthy (familyAcc cfg) \<or> imageTypes cfg = []"
  shows "initial_load_effect net cfg (s, hist) = (s, hist) \<and>
         (\<forall>st v h. reachable net cfg (st, v, h) \<longrightarrow>
            imageStatus st = Loading \<and> imageStatus st \<noteq> Loaded \<and> imageStatus st \<noteq> Error \<and>
            h = [])"
proof -
  have a: "initial_load_effect net cfg (s, hist) = (s, hist)"
    using assms by (auto simp: initial_load_effect_def)
  have b: "imageStatus st = Loading \<and> imageStatus st \<noteq> Loaded \<and> imageStatus st \<noteq> Error \<and> h = []"
    if "reachable net cfg (st, v, h)" for st v h
    using idle_reachable [OF assms that] by (simp add: idle_def)
  from a b show ?thesis by blast
qed

theorem initialization_never_starts_witness:
  "imageTypes empty_config = [] \<and>
   mounted example_service empty_config = (initial_state empty_config, initial_viewports, []) \<and>
   imageStatus (initial_state empty_config) = Loading \<and>
   \<not> truthy (familyAcc anonymous_config) \<and>
   initial_load_effect example_service anonymous_config (initial_state anonymous_config, []) =
     (initial_state anonymous_config, [])"
proof -
  have e: "imageTypes empty_config = []" by (simp add: empty_config_def)
  have n: "\<not> truthy (familyAcc anonymous_config)" by (simp add: anonymous_config_def)
  have m: "mounted example_service empty_config
             = (initial_state empty_config, initial_viewports, [])"
    by (simp add: mounted_def initial_load_effect_def e toggle_reset_effect_def)
  have "reachable example_service empty_config (initial_state empty_config, initial_viewports, [])"
    using reach_mounted [of example_service empty_config] by (simp add: m)
  with initialization_never_starts [OF disjI2 [OF e], of example_service]
  have l: "imageStatus (initial_state empty_config) = Loading" by blast
  from initialization_never_starts [OF disjI1 [OF n], of example_service
          "initial_state anonymous_config" "[]"]
  have i: "initial_load_effect example_service anonymous_config
             (initial_state anonymous_config, []) = (initial_state anonymous_config, [])"
    by blast
  from e m l n i show ?thesis by blast
qed


section \<open>Viewport instances\<close>

lemma live_in_destroy: "live_in sl (destroy i v) = filter (\<lambda>j. j \<noteq> i) (live_in sl v)"
  by (simp add: live_in_def destroy_def filter_map comp_def conj_commute)

lemma ref_get_ref_set: "ref_get sl (ref_set sl' r v) = (if sl = sl' then r else ref_get sl v)"
  by (cases sl; cases sl') simp_all

lemma live_ref_set [simp]: "live (ref_set sl r v) = live v"
  by (cases sl) simp_all

lemma next_ref_set [simp]: "next_instance (ref_set sl r v) = next_instance v"
  by (cases sl) simp_all

lemma live_in_ref_set [simp]: "live_in sl (ref_set sl' r v) = live_in sl v"
  by (simp add: live_in_def)

lemma ref_get_destroy [simp]: "ref_get sl (destroy i v) = ref_get sl v"
  by (cases sl) (simp_all add: destroy_def)

lemma live_in_mem: "i \<in> set (live_in sl v) \<longleftrightarrow> (sl, i) \<in> set (live v)"
  by (force simp: live_in_def)

lemma distinct_ids_slot:
  assumes "distinct (map snd xs)" and "(sl, i) \<in> set xs" and "(sl', i) \<in> set xs"
  shows "sl = sl'"
  using assms by (induction xs) (auto simp: rev_image_eqI)

lemma disciplined_release:
  assumes "disciplined v"
  shows "disciplined (release sl v)"
proof (cases "ref_get sl v")
  case None
  then show ?thesis using assms by (simp add: release_def)
next
  case (Some i)
  from assms have inv: "\<And>sl. live_in sl v = (case ref_get sl v of None \<Rightarrow> [] | Some i \<Rightarrow> [i])"
    and bound: "\<forall>e \<in> set (live v). snd e < next_instance v"
    and dist: "distinct (map snd (live v))"
    by (simp_all add: disciplined_def)
  have here: "live_in sl v = [i]" using inv [of sl] Some by simp
  then have mem: "(sl, i) \<in> set (live v)" using live_in_mem [of i sl v] by simp
  have other: "i \<notin> set (live_in sl' v)" if "sl' \<noteq> sl" for sl'
    using distinct_ids_slot [OF dist mem] that live_in_mem [of i sl' v] by blast
  have r: "release sl v = ref_set sl None (destroy i v)" using Some by (simp add: release_def)
  have a: "live_in sl' (release sl v) =
             (case ref_get sl' (release sl v) of None \<Rightarrow> [] | Some j \<Rightarrow> [j])" for sl'
  proof (cases "sl' = sl")
    case True
    then show ?thesis by (simp add: r live_in_destroy here ref_get_ref_set)
  next
    case False
    then have "filter (\<lambda>j. j \<noteq> i) (live_in sl' v) = live_in sl' v"
      using other [of sl'] by (auto simp: filter_id_conv)
    then show ?thesis using False by (simp add: r live_in_destroy ref_get_ref_set inv [of sl'])
  qed
  have b: "\<forall>e \<in> set (live (release sl v)). snd e < next_instance (release sl v)"
    using bound by (auto simp: r destroy_def)
  have c: "distinct (map snd (live (release sl v)))"
    using dist by (simp add: r destroy_def distinct_map_filter)
  from a b c show ?thesis by (simp add: disciplined_def)
qed

lemma disciplined_release_all: "disciplined v \<Longrightarrow> disciplined (release_all v)"
  by (simp add: release_all_def disciplined_release)

lemma disciplined_released_slot:
  assumes "disciplined v"
  shows "live_in sl (release sl v) = [] \<and> ref_get sl (release sl v) = None"
proof (cases "ref_get sl v")
  case None
  then show ?thesis using assms by (simp add: release_def disciplined_def)
next
  case (Some i)
  from assms have "live_in sl v = [i]" using Some by (simp add: disciplined_def)
  then show ?thesis using Some by (simp add: release_def live_in_destroy ref_get_ref_set)
qed

lemma disciplined_bind:
  assumes "disciplined v" and "live_in sl v = []" and "ref_get sl v = None"
  shows "disciplined (ref_set sl (Some (next_instance v))
            (v\<lparr> live := live v @ [(sl, next_instance v)],
                next_instance := next_instance v + 1 \<rparr>))"
proof -
  let ?w = "v\<lparr> live := live v @ [(sl, next_instance v)], next_instance := next_instance v + 1 \<rparr>"
  from assms(1) have inv: "\<And>sl. live_in sl v = (case ref_get sl v of None \<Rightarrow> [] | Some i \<Rightarrow> [i])"
    and bound: "\<forall>e \<in> set (live v). snd e < next_instance v"
    and dist: "distinct (map snd (live v))"
    by (simp_all add: disciplined_def)
  have rg: "ref_get sl' (v\<lparr> live := l, next_instance := n \<rparr>) = ref_get sl' v" for sl' l n
    by (cases sl') simp_all
  have a: "live_in sl' (ref_set sl (Some (next_instance v)) ?w) =
             (case ref_get sl' (ref_set sl (Some (next_instance v)) ?w) of
                None \<Rightarrow> [] | Some j \<Rightarrow> [j])" for sl'
  proof (cases "sl' = sl")
    case True
    have "live_in sl ?w = live_in sl v @ [next_instance v]" by (simp add: live_in_def)
    then show ?thesis using True assms(2) by (simp add: ref_get_ref_set)
  next
    case False
    then have "live_in sl' ?w = live_in sl' v" by (simp add: live_in_def)
    then show ?thesis using False by (simp add: ref_get_ref_set rg inv [of sl'])
  qed
  have b: "\<forall>e \<in> set (live (ref_set sl (Some (next_instance v)) ?w)).
             snd e < next_instance (ref_set sl (Some (next_instance v)) ?w)"
    using bound by auto
  have "next_instance v \<notin> snd ` set (live v)" using bound by auto
  then have c: "distinct (map snd (live (ref_set sl (Some (next_instance v)) ?w)))"
    using dist by simp
  from a b c show ?thesis by (simp add: disciplined_def)
qed

lemma disciplined_initializePanZoom:
  assumes "disciplined v"
  shows "disciplined (fst (initializePanZoom sl svgElement library_ok v))"
proof -
  note r = disciplined_release [OF assms, of sl]
  note e = disciplined_released_slot [OF assms, of sl]
  show ?thesis
    using r disciplined_bind [OF r] e
    by (auto simp: initializePanZoom_def Let_def split: option.splits)
qed

lemma disciplined_at_most_one:
  assumes "disciplined v"
  shows "length (live_in sl v) \<le> 1"
  using assms by (auto simp: disciplined_def split: option.splits)

lemma handleImageTypeChange_viewports:
  "fst (snd (handleImageTypeChange net cfg t (s, v, hist))) =
     (if t = selectedImageType s then v else release_all v)"
  by (simp add: handleImageTypeChange_def Let_def split: prod.splits option.splits)

lemma main_timer_viewports:
  "snd (fst (main_timer svgElement library_ok (s, v))) =
     fst (initializePanZoom MainSlot (fst (processRscapeSvg svgElement)) library_ok v)"
  by (simp add: main_timer_def Let_def split: prod.splits)

lemma cyk_timer_viewports:
  "snd (fst (cyk_timer svgElement library_ok (s, v))) =
     fst (initializePanZoom CykSlot (fst (processRscapeSvg svgElement)) library_ok v)"
  by (simp add: cyk_timer_def Let_def split: prod.splits)

lemma disciplined_switch:
  "disciplined v \<Longrightarrow> disciplined (fst (snd (handleImageTypeChange net cfg t (s, v, hist))))"
  by (simp add: handleImageTypeChange_viewports disciplined_release_all)

lemma disciplined_main_timer:
  "disciplined v \<Longrightarrow> disciplined (snd (fst (main_timer svgElement library_ok (s, v))))"
  by (simp add: main_timer_viewports disciplined_initializePanZoom)

lemma disciplined_cyk_timer:
  "disciplined v \<Longrightarrow> disciplined (snd (fst (cyk_timer svgElement library_ok (s, v))))"
  by (simp add: cyk_timer_viewports disciplined_initializePanZoom)

lemma disciplined_step:
  assumes "step net cfg c c'" and "disciplined (fst (snd c))"
  shows "disciplined (fst (snd c'))"
  using assms
proof (induction rule: step.induct)
  case (select_change s t v hist s' v' hist')
  then show ?case using disciplined_switch [of v net cfg t s hist] by simp
next
  case (main_timer_fires s svgElement library_ok v s' v' svg' hist)
  then show ?case using disciplined_main_timer [of v svgElement library_ok s] by simp
next
  case (cyk_timer_fires s svgElement library_ok v s' v' svg' hist)
  then show ?case using disciplined_cyk_timer [of v svgElement library_ok s] by simp
next
  case (unmount s v hist)
  then show ?case by (simp add: disciplined_release_all)
next
  case (initial_load_again s hist s' hist' v)
  then show ?case by (simp add: disciplined_release_all)
qed simp_all

lemma disciplined_initial: "disciplined initial_viewports"
proof -
  have "ref_get sl initial_viewports = None" for sl
    by (cases sl) (simp_all add: initial_viewports_def)
  moreover have "live initial_viewports = []" by (simp add: initial_viewports_def)
  ultimately show ?thesis by (simp add: disciplined_def live_in_def)
qed

lemma disciplined_reachable:
  assumes "reachable net cfg c"
  shows "disciplined (fst (snd c))"
  using assms
proof (induction rule: reachable.induct)
  case reach_mounted
  show ?case by (simp add: mounted_def disciplined_initial split: prod.splits)
next
  case (reach_step c c')
  then show ?case using disciplined_step by blast
qed


lemma initializePanZoom_prior:
  assumes "disciplined v" and "ref_get sl v = Some i"
  shows "(sl, i) \<notin> set (live (fst (initializePanZoom sl svgElement library_ok v))) \<and>
         ref_get sl (fst (initializePanZoom sl svgElement library_ok v)) \<noteq> Some i"
proof -
  from assms have "live_in sl v = [i]" by (simp add: disciplined_def)
  then have "(sl, i) \<in> set (live v)" using live_in_mem [of i sl v] by simp
  with assms(1) have lt: "i < next_instance v" by (auto simp: disciplined_def)
  have r: "release sl v = ref_set sl None (destroy i v)" using assms(2) by (simp add: release_def)
  have gone: "(sl, i) \<notin> set (live (release sl v))" by (simp add: r destroy_def)
  have nx: "next_instance (release sl v) = next_instance v" by (simp add: r destroy_def)
  have none: "ref_get sl (release sl v) = None" by (simp add: r ref_get_ref_set)
  show ?thesis
    using gone nx none lt
    by (auto simp: initializePanZoom_def Let_def ref_get_ref_set split: option.splits)
qed

text \<open>
  C5. In every configuration the component can reach, each slot has at most one live
  pan/zoom instance, and it is the one its ref holds. Binding through
  \<^verbatim>\<open>initializePanZoom\<close> leaves at most one live instance in the slot, and the instance the
  ref held before is no longer alive nor held. After a type switch, a firing of the timer
  of the main diagram, a second type switch and another firing, whatever the documents
  found and whether or not the library throws, the main slot never has more than one live
  instance.
\<close>

theorem one_viewport_per_slot:
  assumes "reachable net cfg (s, v, hist)"
  shows "(\<forall>sl. length (live_in sl v) \<le> 1 \<and>
               live_in sl v = (case ref_get sl v of None \<Rightarrow> [] | Some i \<Rightarrow> [i]))
         \<and>
         (\<forall>sl svgElement library_ok.
            (case initializePanZoom sl svgElement library_ok v of
               (v', svg') \<Rightarrow>
                 length (live_in sl v') \<le> 1 \<and>
                 (\<forall>i. ref_get sl v = Some i \<longrightarrow>
                        (sl, i) \<notin> set (live v') \<and> ref_get sl v' \<noteq> Some i)))
         \<and>
         (\<forall>t1 t2 e1 ok1 e2 ok2.
            (case handleImageTypeChange net cfg t1 (s, v, hist) of
               (s1, v1, h1) \<Rightarrow>
                 (case main_timer e1 ok1 (s1, v1) of
                    ((s2, v2), d2) \<Rightarrow>
                      (case handleImageTypeChange net cfg t2 (s2, v2, h1) of
                         (s3, v3, h3) \<Rightarrow>
                           (case main_timer e2 ok2 (s3, v3) of
                              ((s4, v4), d4) \<Rightarrow>
                                length (live_in MainSlot v1) \<le> 1 \<and>
                                length (live_in MainSlot v2) \<le> 1 \<and>
                                length (live_in MainSlot v3) \<le> 1 \<and>
                                length (live_in MainSlot v4) \<le> 1)))))"
    (is "?A \<and> ?B \<and> ?C")
proof -
  from disciplined_reachable [OF assms] have d: "disciplined v" by simp
  have a: "\<forall>sl. length (live_in sl v) \<le> 1 \<and>
               live_in sl v = (case ref_get sl v of None \<Rightarrow> [] | Some i \<Rightarrow> [i])"
    using d disciplined_at_most_one [OF d] by (simp add: disciplined_def)
  have b: "case initializePanZoom sl svgElement library_ok v of
               (v', svg') \<Rightarrow>
                 length (live_in sl v') \<le> 1 \<and>
                 (\<forall>i. ref_get sl v = Some i \<longrightarrow>
                        (sl, i) \<notin> set (live v') \<and> ref_get sl v' \<noteq> Some i)"
    for sl svgElement library_ok
    using disciplined_at_most_one [OF disciplined_initializePanZoom [OF d], of sl sl svgElement library_ok]
      initializePanZoom_prior [OF d, of sl _ svgElement library_ok]
    by (auto split: prod.splits)
  have c: "case handleImageTypeChange net cfg t1 (s, v, hist) of
               (s1, v1, h1) \<Rightarrow>
                 (case main_timer e1 ok1 (s1, v1) of
                    ((s2, v2), d2) \<Rightarrow>
                      (case handleImageTypeChange net cfg t2 (s2, v2, h1) of
                         (s3, v3, h3) \<Rightarrow>
                           (case main_timer e2 ok2 (s3, v3) of
                              ((s4, v4), d4) \<Rightarrow>
                                length (live_in MainSlot v1) \<le> 1 \<and>
                                length (live_in MainSlot v2) \<le> 1 \<and>
                                length (live_in MainSlot v3) \<le> 1 \<and>
                                length (live_in MainSlot v4) \<le> 1)))"
    for t1 t2 e1 ok1 e2 ok2
  proof -
    obtain s1 v1 h1 where 1: "handleImageTypeChange net cfg t1 (s, v, hist) = (s1, v1, h1)"
      by (metis prod_cases3)
    obtain s2 v2 d2 where 2: "main_timer e1 ok1 (s1, v1) = ((s2, v2), d2)"
      by (metis prod.collapse)
    obtain s3 v3 h3 where 3: "handleImageTypeChange net cfg t2 (s2, v2, h1) = (s3, v3, h3)"
      by (metis prod_cases3)
    obtain s4 v4 d4 where 4: "main_timer e2 ok2 (s3, v3) = ((s4, v4), d4)"
      by (metis prod.collapse)
    have d1: "disciplined v1" using disciplined_switch [OF d, of net cfg t1 s hist] 1 by simp
    have d2: "disciplined v2" using disciplined_main_timer [OF d1, of e1 ok1 s1] 2 by simp
    have d3: "disciplined v3" using disciplined_switch [OF d2, of net cfg t2 s2 h1] 3 by simp
    have d4: "disciplined v4" using disciplined_main_timer [OF d3, of e2 ok2 s3] 4 by simp
    show ?thesis
      using disciplined_at_most_one [OF d1] disciplined_at_most_one [OF d2]
        disciplined_at_most_one [OF d3] disciplined_at_most_one [OF d4]
      by (simp add: 1 2 3 4)
  qed
  show ?thesis
  proof (intro conjI)
    show ?A by (rule a)
    show ?B by (intro allI) (rule b)
    show ?C by (intro allI) (rule c)
  qed
qed


lemma mounted_rscape:
  "mounted rscape_service example_config =
     ((initial_state example_config)
        \<lparr> availableTypes := [''rscape''], svgContent := ''<svg></svg>'',
          selectedImageType := ''rscape'', isImageNotAvailable := False, imageStatus := Loaded \<rparr>,
      initial_viewports,
      [Fetch HEAD ''rfam/RF00001/image/rscape'', Fetch HEAD ''rfam/RF00001/image/cons'',
       Fetch HEAD ''rfam/RF00001/image/norm'', Fetch GET ''rfam/RF00001/image/rscape''])"
  by (simp add: mounted_def initial_load_effect_def initializeImages_def typesToCheck_def
        DROPDOWN_IMAGE_TYPES_def example_config_def checkImageAvailability_def
        buildImageUrl_def rscape_service_def svg_response_def tryLoadImage_def
        loadImage_def Let_def toggle_reset_effect_def initial_state_def)

lemma process_plain_svg:
  "processRscapeSvg (Some plain_svg) =
     (Some plain_svg, Some \<lparr> basepairs = 0, significantBasepairs = 0 \<rparr>)"
  by (simp add: processRscapeSvg_def plain_svg_def querySelectorAll_def)

lemma dimension_120: "dimension_or_400 (Some ''120'') = 120"
  by (simp add: dimension_or_400_def parseInt_def skip_space.simps [of "''120''"]
        white_space_def is_digit_of_def digit_value_def digits_value_def Let_def)

lemma bind_plain_svg:
  "initializePanZoom sl (Some plain_svg) True v =
     (ref_set sl (Some (next_instance (release sl v)))
        ((release sl v)\<lparr> live := live (release sl v) @ [(sl, next_instance (release sl v))],
                           next_instance := next_instance (release sl v) + 1 \<rparr>),
      Some (Element ''svg'' [(''width'', ''400'')] [] []))"
proof -
  have w: "getAttribute plain_svg ''width'' = Some ''120''"
    and h: "getAttribute plain_svg ''height'' = None"
    by (simp_all add: getAttribute_def plain_svg_def)
  have n: "dimension_or_400 None = 400" by (simp add: dimension_or_400_def parseInt_def)
  have a: "setAttribute plain_svg ''width'' ''400'' = Element ''svg'' [(''width'', ''400'')] [] []"
    by (simp add: plain_svg_def)
  have h': "getAttribute (Element ''svg'' [(''width'', ''400'')] [] []) ''height'' = None"
    by (simp add: getAttribute_def)
  show ?thesis
    by (simp add: initializePanZoom_def Let_def w h n a h' dimension_120)
qed

lemma bound_once_eq:
  "bound_once =
     ((initial_state example_config)
        \<lparr> availableTypes := [''rscape''], svgContent := ''<svg></svg>'',
          selectedImageType := ''rscape'', isImageNotAvailable := False, imageStatus := Loaded,
          rscapeStats := Some \<lparr> basepairs = 0, significantBasepairs = 0 \<rparr> \<rparr>,
      \<lparr> panZoomInstanceRef = Some 0, panZoomCykInstanceRef = None, live = [(MainSlot, 0)],
        next_instance = 1 \<rparr>,
      [Fetch HEAD ''rfam/RF00001/image/rscape'', Fetch HEAD ''rfam/RF00001/image/cons'',
       Fetch HEAD ''rfam/RF00001/image/norm'', Fetch GET ''rfam/RF00001/image/rscape''])"
  by (simp add: bound_once_def mounted_rscape main_timer_def process_plain_svg bind_plain_svg
        release_def initial_viewports_def)

lemma bound_twice_eq:
  "bound_twice =
     ((initial_state example_config)
        \<lparr> availableTypes := [''rscape''], svgContent := ''<svg></svg>'',
          selectedImageType := ''rscape'', isImageNotAvailable := False, imageStatus := Loaded,
          rscapeStats := Some \<lparr> basepairs = 0, significantBasepairs = 0 \<rparr> \<rparr>,
      \<lparr> panZoomInstanceRef = Some 1, panZoomCykInstanceRef = None, live = [(MainSlot, 1)],
        next_instance = 2 \<rparr>,
      [Fetch HEAD ''rfam/RF00001/image/rscape'', Fetch HEAD ''rfam/RF00001/image/cons'',
       Fetch HEAD ''rfam/RF00001/image/norm'', Fetch GET ''rfam/RF00001/image/rscape''])"
  by (simp add: bound_twice_def bound_once_eq main_timer_def process_plain_svg bind_plain_svg
        release_def destroy_def)

lemma reachable_bound_once: "reachable rscape_service example_config bound_once"
proof -
  have "main_timer_scheduled ((initial_state example_config)
        \<lparr> availableTypes := [''rscape''], svgContent := ''<svg></svg>'',
          selectedImageType := ''rscape'', isImageNotAvailable := False, imageStatus := Loaded \<rparr>)"
    by (simp add: main_timer_scheduled_def)
  from main_timer_fires [OF this, of "Some plain_svg" True initial_viewports _ _ _
         rscape_service example_config
         "[Fetch HEAD ''rfam/RF00001/image/rscape'', Fetch HEAD ''rfam/RF00001/image/cons'',
           Fetch HEAD ''rfam/RF00001/image/norm'', Fetch GET ''rfam/RF00001/image/rscape'']"]
  have "step rscape_service example_config (mounted rscape_service example_config) bound_once"
    by (simp add: bound_once_def mounted_rscape split: prod.splits) (metis prod.collapse)
  with reach_mounted [of rscape_service example_config] show ?thesis
    by (rule reach_step)
qed


lemma reachable_bound_twice: "reachable rscape_service example_config bound_twice"
proof -
  have "main_timer_scheduled ((initial_state example_config)
        \<lparr> availableTypes := [''rscape''], svgContent := ''<svg></svg>'',
          selectedImageType := ''rscape'', isImageNotAvailable := False, imageStatus := Loaded,
          rscapeStats := Some \<lparr> basepairs = 0, significantBasepairs = 0 \<rparr> \<rparr>)"
    by (simp add: main_timer_scheduled_def)
  from main_timer_fires [OF this, of "Some plain_svg" True
         "\<lparr> panZoomInstanceRef = Some 0, panZoomCykInstanceRef = None, live = [(MainSlot, 0)],
            next_instance = 1 \<rparr>" _ _ _
         rscape_service example_config
         "[Fetch HEAD ''rfam/RF00001/image/rscape'', Fetch HEAD ''rfam/RF00001/image/cons'',
           Fetch HEAD ''rfam/RF00001/image/norm'', Fetch GET ''rfam/RF00001/image/rscape'']"]
  have "step rscape_service example_config bound_once bound_twice"
    by (simp add: bound_twice_def bound_once_eq split: prod.splits) (metis prod.collapse)
  with reachable_bound_once show ?thesis by (rule reach_step)
qed

theorem one_viewport_per_slot_witness:
  "reachable rscape_service example_config bound_twice \<and>
   live_in MainSlot (fst (snd bound_twice)) = [1] \<and>
   length (live_in MainSlot (fst (snd bound_twice))) \<le> 1 \<and>
   (MainSlot, 0) \<notin> set (live (fst (snd bound_twice)))"
proof -
  obtain s v hist where c: "bound_twice = (s, v, hist)" by (metis prod_cases3)
  with reachable_bound_twice have r: "reachable rscape_service example_config (s, v, hist)"
    by simp
  from one_viewport_per_slot [OF r] have "length (live_in MainSlot v) \<le> 1" by blast
  then have a: "length (live_in MainSlot (fst (snd bound_twice))) \<le> 1" by (simp add: c)
  have b: "live_in MainSlot (fst (snd bound_twice)) = [1]"
    "(MainSlot, 0) \<notin> set (live (fst (snd bound_twice)))"
    by (simp_all add: bound_twice_eq live_in_def)
  from reachable_bound_twice a b show ?thesis by blast
qed


section \<open>Annotation counts\<close>

lemma map_of_set_entry:
  "map_of (set_entry k v al) k' = (if k' = k then Some v else map_of al k')"
  by (induction al) auto

lemma tagName_setAttribute [simp]: "tagName (setAttribute e n v) = tagName e"
  by (cases e) simp_all

lemma tagName_setStyle [simp]: "tagName (setStyle e n v) = tagName e"
  by (cases e) simp_all

lemma attributes_setStyle [simp]: "attributes (setStyle e n v) = attributes e"
  by (cases e) simp_all

lemma getAttribute_setAttribute:
  "getAttribute (setAttribute e n v) n' =
     (case e of Text s \<Rightarrow> None | Element t a st cs \<Rightarrow> if n' = n then Some v else getAttribute e n')"
  by (cases e) (simp_all add: getAttribute_def map_of_set_entry)

lemma set_tooltip_tag [simp]: "tagName (set_tooltip title e) = tagName e"
  by (simp add: set_tooltip_def)

lemma set_tooltip_attribute:
  "n \<noteq> ''data-tooltip'' \<Longrightarrow> getAttribute (set_tooltip title e) n = getAttribute e n"
  by (cases e) (simp_all add: set_tooltip_def getAttribute_def map_of_set_entry)

text \<open>What the counters read of a path.\<close>

lemma elements_for_each:
  assumes "\<And>e. tagName (h e) = tagName e"
      and "\<And>e. F (attributes (h e)) = F (attributes e)"
  shows "map (\<lambda>e. (tagName e, F (attributes e))) (elements (for_each p h ns)) =
         map (\<lambda>e. (tagName e, F (attributes e))) (elements ns)"
  by (induction ns rule: elements.induct) (simp_all add: assms Let_def)

lemma foldl_count_path:
  "foldl count_path c ps =
     \<lparr> basepairs = basepairs c + length (filter is_pairing_line ps),
       significantBasepairs = significantBasepairs c + length (filter has_significant_fill ps) \<rparr>"
  by (induction ps arbitrary: c)
     (simp_all add: count_path_def is_pairing_line_def has_significant_fill_def Let_def)

lemma length_filter_map:
  "length (filter (\<lambda>x. P (g x)) xs) = length (filter P (map g xs))"
  by (induction xs) simp_all

lemma paths_after_tspans:
  fixes cs :: "node list"
  defines "cs1 \<equiv> for_each (\<lambda>e. tagName e = ''tspan'') annotate_tspan cs"
  shows "length (filter is_pairing_line (filter (\<lambda>e. tagName e = ''path'') (elements cs1))) =
         length (filter is_pairing_line (filter (\<lambda>e. tagName e = ''path'') (elements cs)))"
    and "length (filter has_significant_fill (filter (\<lambda>e. tagName e = ''path'') (elements cs1))) =
         length (filter has_significant_fill (filter (\<lambda>e. tagName e = ''path'') (elements cs)))"
proof -
  define F :: "(string \<times> string) list \<Rightarrow> string option \<times> string option"
    where "F = (\<lambda>a. (map_of a ''fill'', map_of a ''stroke-width''))"
  define Ob where "Ob = (\<lambda>e. (tagName e, F (attributes e)))"
  define P1 :: "string \<times> string option \<times> string option \<Rightarrow> bool"
    where "P1 = (\<lambda>ob. fst ob = ''path'' \<and> snd (snd ob) = Some ''1.44'')"
  define P2 :: "string \<times> string option \<times> string option \<Rightarrow> bool"
    where "P2 = (\<lambda>ob. fst ob = ''path'' \<and> fst (snd ob) = Some RSCAPE_COLORS_significant)"
  have t: "tagName (annotate_tspan e) = tagName e" for e by (simp add: annotate_tspan_def)
  have f: "F (attributes (annotate_tspan e)) = F (attributes e)" for e
    using set_tooltip_attribute [of "''fill''" "tspan_title e" e]
      set_tooltip_attribute [of "''stroke-width''" "tspan_title e" e]
    by (simp add: annotate_tspan_def getAttribute_def F_def)
  have eq: "map Ob (elements cs1) = map Ob (elements cs)"
    unfolding cs1_def Ob_def by (rule elements_for_each [where F = F, OF t f])
  have a: "filter is_pairing_line (filter (\<lambda>e. tagName e = ''path'') xs) =
           filter (\<lambda>e. P1 (Ob e)) xs" for xs
    by (induction xs) (auto simp: is_pairing_line_def getAttribute_def Ob_def P1_def F_def)
  have b: "filter has_significant_fill (filter (\<lambda>e. tagName e = ''path'') xs) =
           filter (\<lambda>e. P2 (Ob e)) xs" for xs
    by (induction xs) (auto simp: has_significant_fill_def getAttribute_def Ob_def P2_def F_def)
  have "length (filter (\<lambda>e. P1 (Ob e)) (elements cs1)) = length (filter (\<lambda>e. P1 (Ob e)) (elements cs))"
    using length_filter_map [of P1 Ob "elements cs1"] length_filter_map [of P1 Ob "elements cs"] eq
    by simp
  then show "length (filter is_pairing_line (filter (\<lambda>e. tagName e = ''path'') (elements cs1))) =
         length (filter is_pairing_line (filter (\<lambda>e. tagName e = ''path'') (elements cs)))"
    by (simp only: a)
  have "length (filter (\<lambda>e. P2 (Ob e)) (elements cs1)) = length (filter (\<lambda>e. P2 (Ob e)) (elements cs))"
    using length_filter_map [of P2 Ob "elements cs1"] length_filter_map [of P2 Ob "elements cs"] eq
    by simp
  then show "length (filter has_significant_fill (filter (\<lambda>e. tagName e = ''path'') (elements cs1))) =
         length (filter has_significant_fill (filter (\<lambda>e. tagName e = ''path'') (elements cs)))"
    by (simp only: b)
qed

lemma processRscapeSvg_stats:
  "snd (processRscapeSvg (Some svg)) =
     Some \<lparr> basepairs = length (filter is_pairing_line (querySelectorAll ''path'' svg)),
            significantBasepairs =
              length (filter has_significant_fill (querySelectorAll ''path'' svg)) \<rparr>"
proof (cases svg)
  case (Text s)
  then show ?thesis by (simp add: processRscapeSvg_def querySelectorAll_def)
next
  case (Element t a st cs)
  then show ?thesis
    by (simp add: processRscapeSvg_def querySelectorAll_def Let_def foldl_count_path
          paths_after_tspans del: filter_filter)
qed


lemma main_timer_stats:
  "rscapeStats (fst (fst (main_timer (Some svg) library_ok (s, v)))) =
     snd (processRscapeSvg (Some svg))"
proof -
  obtain svg1 c where p: "processRscapeSvg (Some svg) = (svg1, Some c)"
    using processRscapeSvg_stats [of svg] by (metis prod.collapse)
  then show ?thesis by (simp add: main_timer_def Let_def split: prod.splits)
qed

text \<open>
  C4, as the code has it. The pass sets \<open>basepairs\<close> to the number of path elements whose
  \<^verbatim>\<open>stroke-width\<close> is \<^verbatim>\<open>1.44\<close>, and \<open>significantBasepairs\<close> to the number of path elements
  whose fill is the significant one, pairing lines or not. When every path with the
  significant fill is a pairing line, the second count is the number of pairing lines with
  that fill. A pass over a fresh copy of the same diagram, after an earlier pass, stores
  the same counts again, not their sum.
\<close>

theorem annotation_counts:
  "snd (processRscapeSvg (Some svg)) =
     Some \<lparr> basepairs = length (filter is_pairing_line (querySelectorAll ''path'' svg)),
            significantBasepairs =
              length (filter has_significant_fill (querySelectorAll ''path'' svg)) \<rparr>
   \<and>
   ((\<forall>e \<in> set (querySelectorAll ''path'' svg). has_significant_fill e \<longrightarrow> is_pairing_line e) \<longrightarrow>
    snd (processRscapeSvg (Some svg)) =
      Some \<lparr> basepairs = length (filter is_pairing_line (querySelectorAll ''path'' svg)),
             significantBasepairs =
               length (filter is_significant_pairing_line (querySelectorAll ''path'' svg)) \<rparr>)
   \<and>
   rscapeStats (fst (fst (main_timer (Some svg) ok2 (fst (main_timer (Some svg) ok1 (s, v)))))) =
     snd (processRscapeSvg (Some svg))"
proof (intro conjI impI)
  show "snd (processRscapeSvg (Some svg)) =
     Some \<lparr> basepairs = length (filter is_pairing_line (querySelectorAll ''path'' svg)),
            significantBasepairs =
              length (filter has_significant_fill (querySelectorAll ''path'' svg)) \<rparr>"
    by (rule processRscapeSvg_stats)
next
  assume "\<forall>e \<in> set (querySelectorAll ''path'' svg). has_significant_fill e \<longrightarrow> is_pairing_line e"
  then have "filter has_significant_fill (querySelectorAll ''path'' svg) =
             filter is_significant_pairing_line (querySelectorAll ''path'' svg)"
    by (intro filter_cong) (auto simp: is_significant_pairing_line_def)
  then show "snd (processRscapeSvg (Some svg)) =
      Some \<lparr> basepairs = length (filter is_pairing_line (querySelectorAll ''path'' svg)),
             significantBasepairs =
               length (filter is_significant_pairing_line (querySelectorAll ''path'' svg)) \<rparr>"
    by (simp add: processRscapeSvg_stats)
next
  obtain s1 v1 where m: "fst (main_timer (Some svg) ok1 (s, v)) = (s1, v1)"
    by (metis prod.collapse)
  show "rscapeStats (fst (fst (main_timer (Some svg) ok2 (fst (main_timer (Some svg) ok1 (s, v)))))) =
     snd (processRscapeSvg (Some svg))"
    unfolding m by (rule main_timer_stats)
qed

lemma fixture_paths:
  "querySelectorAll ''path'' rscape_fixture =
     [Element ''path'' [(''fill'', ''#d90000'')] [] [],
      significant_line, plain_line, plain_line, significant_line, plain_line,
      plain_line, plain_line, significant_line, plain_line, plain_line]"
  by (simp add: querySelectorAll_def rscape_fixture_def significant_line_def plain_line_def)

lemma fixture_lines:
  "is_pairing_line significant_line" "is_pairing_line plain_line"
  "has_significant_fill significant_line" "\<not> has_significant_fill plain_line"
  "\<not> is_pairing_line (Element ''path'' [(''fill'', ''#d90000'')] [] [])"
  "\<not> has_significant_fill (Element ''path'' [(''fill'', ''#d90000'')] [] [])"
  by (simp_all add: is_pairing_line_def has_significant_fill_def getAttribute_def
        significant_line_def plain_line_def RSCAPE_COLORS_significant_def)

theorem annotation_counts_witness:
  "length (filter is_pairing_line (querySelectorAll ''path'' rscape_fixture)) = 10 \<and>
   length (filter is_significant_pairing_line (querySelectorAll ''path'' rscape_fixture)) = 3 \<and>
   snd (processRscapeSvg (Some rscape_fixture)) =
     Some \<lparr> basepairs = 10, significantBasepairs = 3 \<rparr> \<and>
   rscapeStats
     (fst (fst (main_timer (Some rscape_fixture) True
                  (fst (main_timer (Some rscape_fixture) True
                          (initial_state example_config, initial_viewports)))))) =
     Some \<lparr> basepairs = 10, significantBasepairs = 3 \<rparr>"
proof -
  have h: "\<forall>e \<in> set (querySelectorAll ''path'' rscape_fixture).
             has_significant_fill e \<longrightarrow> is_pairing_line e"
    by (simp add: fixture_paths fixture_lines)
  have a: "length (filter is_pairing_line (querySelectorAll ''path'' rscape_fixture)) = 10"
    by (simp add: fixture_paths fixture_lines)
  have b: "length (filter is_significant_pairing_line (querySelectorAll ''path'' rscape_fixture)) = 3"
    by (simp add: fixture_paths fixture_lines is_significant_pairing_line_def)
  note t = annotation_counts [of rscape_fixture True True "initial_state example_config"
             initial_viewports]
  from t [THEN conjunct2, THEN conjunct1, THEN mp, OF h]
  have c: "snd (processRscapeSvg (Some rscape_fixture)) =
     Some \<lparr> basepairs = 10, significantBasepairs = 3 \<rparr>"
    by (simp only: a b)
  from t [THEN conjunct2, THEN conjunct2] c
  have d: "rscapeStats
     (fst (fst (main_timer (Some rscape_fixture) True
                  (fst (main_timer (Some rscape_fixture) True
                          (initial_state example_config, initial_viewports)))))) =
     Some \<lparr> basepairs = 10, significantBasepairs = 3 \<rparr>"
    by simp
  from a b c d show ?thesis by blast
qed

text \<open>
  C4, as stated, fails on a diagram with a path that has the significant fill and is not a
  pairing line: no pairing line is significant there, and the pass counts one.
\<close>

theorem annotation_counts_counterexample:
  "snd (processRscapeSvg (Some shaded_fixture)) =
     Some \<lparr> basepairs = 1, significantBasepairs = 1 \<rparr> \<and>
   length (filter is_significant_pairing_line (querySelectorAll ''path'' shaded_fixture)) = 0"
  by (simp add: processRscapeSvg_def shaded_fixture_def querySelectorAll_def Let_def
        count_path_def getAttribute_def RSCAPE_COLORS_significant_def
        is_significant_pairing_line_def is_pairing_line_def has_significant_fill_def)


section \<open>Updating the first match\<close>

lemma find_append_split:
  "find P (xs @ ys) = (case find P xs of None \<Rightarrow> find P ys | Some x \<Rightarrow> Some x)"
  by (induction xs) auto

lemma find_map_obs: "find Q (map g xs) = map_option g (find (\<lambda>x. Q (g x)) xs)"
  by (induction xs) auto

lemma find_none_prefix: "\<forall>y \<in> set ys. \<not> P y \<Longrightarrow> find P (ys @ zs) = find P zs"
  by (induction ys) auto

lemma update_first_elements:
  fixes Ob :: "node \<Rightarrow> 'o"
  assumes ob: "\<And>t a st cs cs'. Ob (Element t a st cs) = Ob (Element t a st cs')"
      and f: "\<And>e. p e \<Longrightarrow> \<exists>t a st. f e = Some (Element t a st (childNodes e))"
  shows "case update_first p f ns of
           (ns', found) \<Rightarrow>
             if found
             then \<exists>ys x zs. elements ns = ys @ x # zs \<and> (\<forall>y \<in> set ys. \<not> p y) \<and> p x \<and>
                    map Ob (elements ns') = map Ob ys @ Ob (the (f x)) # map Ob zs
             else (\<forall>y \<in> set (elements ns). \<not> p y) \<and> ns' = ns"
proof (induction ns rule: elements.induct)
  case 1
  show ?case by simp
next
  case (2 s ns)
  then show ?case by (auto split: prod.splits if_splits)
next
  case (3 t a st cs ns)
  let ?e = "Element t a st cs"
  show ?case
  proof (cases "p ?e")
    case True
    from f [OF True] obtain t' a' st' where fe: "f ?e = Some (Element t' a' st' cs)" by auto
    have "elements (?e # ns) = [] @ ?e # (elements cs @ elements ns)" by simp
    moreover have "map Ob (elements (Element t' a' st' cs # ns)) =
        map Ob [] @ Ob (the (f ?e)) # map Ob (elements cs @ elements ns)"
      by (simp add: fe)
    ultimately have "\<exists>ys x zs. elements (?e # ns) = ys @ x # zs \<and> (\<forall>y \<in> set ys. \<not> p y) \<and> p x \<and>
        map Ob (elements (Element t' a' st' cs # ns)) = map Ob ys @ Ob (the (f x)) # map Ob zs"
      using True by (metis empty_iff list.set(1))
    then show ?thesis using True fe by simp
  next
    case False
    obtain cs' fc where uc: "update_first p f cs = (cs', fc)" by (metis prod.collapse)
    obtain ns' fn where un: "update_first p f ns = (ns', fn)" by (metis prod.collapse)
    show ?thesis
    proof (cases fc)
      case True
      from "3.IH"(1) uc True obtain ys x zs where
        sp: "elements cs = ys @ x # zs" "\<forall>y \<in> set ys. \<not> p y" "p x"
            "map Ob (elements cs') = map Ob ys @ Ob (the (f x)) # map Ob zs"
        by auto
      have "elements (?e # ns) = (?e # ys) @ x # (zs @ elements ns)" using sp(1) by simp
      moreover have "\<forall>y \<in> set (?e # ys). \<not> p y" using sp(2) False by simp
      moreover have "map Ob (elements (Element t a st cs' # ns)) =
          map Ob (?e # ys) @ Ob (the (f x)) # map Ob (zs @ elements ns)"
        using sp(4) ob [of t a st cs' cs] by simp
      ultimately have "\<exists>ys x zs. elements (?e # ns) = ys @ x # zs \<and> (\<forall>y \<in> set ys. \<not> p y) \<and> p x \<and>
        map Ob (elements (Element t a st cs' # ns)) = map Ob ys @ Ob (the (f x)) # map Ob zs"
        using sp(3) by blast
      then show ?thesis using False uc True by simp
    next
      case nf: False
      from "3.IH"(1) uc nf have nc: "\<forall>y \<in> set (elements cs). \<not> p y" by auto
      show ?thesis
      proof (cases fn)
        case True
        from "3.IH"(2) un True obtain ys x zs where
          sp: "elements ns = ys @ x # zs" "\<forall>y \<in> set ys. \<not> p y" "p x"
              "map Ob (elements ns') = map Ob ys @ Ob (the (f x)) # map Ob zs"
          by auto
        have "elements (?e # ns) = (?e # elements cs @ ys) @ x # zs" using sp(1) by simp
        moreover have "\<forall>y \<in> set (?e # elements cs @ ys). \<not> p y" using sp(2) False nc by auto
        moreover have "map Ob (elements (Element t a st cs # ns')) =
            map Ob (?e # elements cs @ ys) @ Ob (the (f x)) # map Ob zs"
          using sp(4) by simp
        ultimately have "\<exists>ys x zs. elements (?e # ns) = ys @ x # zs \<and> (\<forall>y \<in> set ys. \<not> p y) \<and> p x \<and>
          map Ob (elements (Element t a st cs # ns')) = map Ob ys @ Ob (the (f x)) # map Ob zs"
          using sp(3) by blast
        then show ?thesis using False uc nf un True by simp
      next
        case nn: False
        from "3.IH"(2) un nn have "\<forall>y \<in> set (elements ns). \<not> p y" "ns' = ns" by auto
        then show ?thesis using False uc nf un nn nc by auto
      qed
    qed
  qed
qed


text \<open>What the toggle reads of an element: its id and its inline visibility.\<close>

lemma layer_obs_children:
  "(getAttribute (Element t a st cs) ''id'', getStyle (Element t a st cs) ''visibility'') =
   (getAttribute (Element t a st cs') ''id'', getStyle (Element t a st cs') ''visibility'')"
  by (simp add: getAttribute_def getStyle_def)

lemma setStyle_shape:
  "has_id i e \<Longrightarrow> \<exists>t a st. Some (setStyle e ''visibility'' v) = Some (Element t a st (childNodes e))"
  by (cases e) (simp_all add: has_id_def getAttribute_def)

lemma getStyle_setStyle:
  "getStyle (setStyle (Element t a st cs) k v) k' =
     (if k' = k then Some v else getStyle (Element t a st cs) k')"
  by (simp add: getStyle_def map_of_set_entry)

lemma getAttribute_setStyle [simp]: "getAttribute (setStyle e k v) n = getAttribute e n"
  by (cases e) (simp_all add: getAttribute_def)

lemma has_id_element: "has_id i e \<Longrightarrow> \<exists>t a st cs. e = Element t a st cs"
  by (cases e) (simp_all add: has_id_def getAttribute_def)

lemma set_visibility_find:
  fixes svg :: node
  defines "Ob \<equiv> \<lambda>e. (getAttribute e ''id'', getStyle e ''visibility'')"
  shows "find (\<lambda>ob. fst ob = Some j) (map Ob (elements (childNodes (set_visibility i v svg)))) =
         (if j = i
          then (case find (\<lambda>ob. fst ob = Some j) (map Ob (elements (childNodes svg))) of
                  None \<Rightarrow> None | Some ob \<Rightarrow> Some (Some i, Some v))
          else find (\<lambda>ob. fst ob = Some j) (map Ob (elements (childNodes svg))))"
proof (cases svg)
  case (Text s)
  then show ?thesis by simp
next
  case (Element t a st cs)
  let ?f = "\<lambda>e. Some (setStyle e ''visibility'' v)"
  let ?Q = "\<lambda>ob :: string option \<times> string option. fst ob = Some j"
  obtain cs' found where u: "update_first (has_id i) ?f cs = (cs', found)"
    by (metis prod.collapse)
  have kids: "childNodes (set_visibility i v svg) = cs'" "childNodes svg = cs"
    using Element u by simp_all
  have ob: "\<And>t a st cs cs'. Ob (Element t a st cs) = Ob (Element t a st cs')"
    unfolding Ob_def by (rule layer_obs_children)
  have nomatch: "\<not> ?Q (Ob y)" if "\<not> has_id i y" "j = i" for y
    using that by (simp add: Ob_def has_id_def)
  have fshape: "\<exists>t a st. ?f e = Some (Element t a st (childNodes e))" if "has_id i e" for e
    using setStyle_shape [OF that] by simp
  note main = update_first_elements [where Ob = Ob and p = "has_id i" and f = ?f and ns = cs,
                 OF ob fshape]
  show ?thesis
  proof (cases found)
    case False
    with main u have none: "\<forall>y \<in> set (elements cs). \<not> has_id i y" and same: "cs' = cs" by auto
    show ?thesis
    proof (cases "j = i")
      case True
      have "\<forall>ob \<in> set (map Ob (elements cs)). \<not> ?Q ob" using none nomatch True by auto
      then have "find ?Q (map Ob (elements cs)) = None" by (simp add: find_None_iff)
      then show ?thesis using True by (simp add: kids same)
    next
      case False
      then show ?thesis by (simp add: kids same)
    qed
  next
    case True
    with main u obtain ys x zs where
      sp: "elements cs = ys @ x # zs" "\<forall>y \<in> set ys. \<not> has_id i y" "has_id i x"
          "map Ob (elements cs') = map Ob ys @ Ob (the (?f x)) # map Ob zs"
      by auto
    from has_id_element [OF sp(3)] obtain tx ax sx cx where x: "x = Element tx ax sx cx" by blast
    have ox: "Ob (the (?f x)) = (Some i, Some v)" "fst (Ob x) = Some i"
      using sp(3)
      by (simp_all add: Ob_def x has_id_def getAttribute_def getStyle_def map_of_set_entry)
    have old: "map Ob (elements cs) = map Ob ys @ Ob x # map Ob zs" using sp(1) by simp
    show ?thesis
    proof (cases "j = i")
      case True
      have pre: "\<forall>ob \<in> set (map Ob ys). \<not> ?Q ob" using sp(2) nomatch True by auto
      have "find ?Q (map Ob (elements cs')) = Some (Some i, Some v)"
        unfolding sp(4) using find_none_prefix [OF pre] ox True by simp
      moreover have "find ?Q (map Ob (elements cs)) = Some (Ob x)"
        unfolding old using find_none_prefix [OF pre] ox True by simp
      ultimately show ?thesis using True by (simp add: kids)
    next
      case False
      have "find ?Q (map Ob (elements cs')) = find ?Q (map Ob (elements cs))"
        unfolding sp(4) old using ox False
        by (cases "Ob x") (auto simp: find_append_split split: option.splits)
      then show ?thesis using False by (simp add: kids)
    qed
  qed
qed

lemma visibility_of_obs:
  "visibility_of j svg =
     (case find (\<lambda>ob. fst ob = Some j)
             (map (\<lambda>e. (getAttribute e ''id'', getStyle e ''visibility''))
                (elements (childNodes svg))) of
        None \<Rightarrow> None | Some ob \<Rightarrow> snd ob)"
proof -
  have h: "has_id j = (\<lambda>x. getAttribute x ''id'' = Some j)" by (simp add: fun_eq_iff has_id_def)
  show ?thesis
    by (simp add: visibility_of_def querySelector_id_def find_map_obs h split: option.splits)
qed

lemma present_obs:
  "(querySelector_id j svg = None) =
     (find (\<lambda>ob. fst ob = Some j)
        (map (\<lambda>e. (getAttribute e ''id'', getStyle e ''visibility''))
           (elements (childNodes svg))) = None)"
proof -
  have h: "has_id j = (\<lambda>x. getAttribute x ''id'' = Some j)" by (simp add: fun_eq_iff has_id_def)
  show ?thesis by (simp add: querySelector_id_def find_map_obs h)
qed

lemma set_visibility_effect:
  "visibility_of j (set_visibility i v svg) =
     (if j = i then (if querySelector_id i svg = None then None else Some v)
      else visibility_of j svg)"
  "(querySelector_id j (set_visibility i v svg) = None) = (querySelector_id j svg = None)"
  by (auto simp: visibility_of_obs present_obs set_visibility_find split: option.splits)


section \<open>The toggle cycle\<close>

lemma show_layers_effect:
  assumes "layers_present svg"
  shows "layer_visibility (Some (show_layers a b c svg)) = Some (Some a, Some b, Some c)"
    and "layers_present (show_layers a b c svg)"
  using assms
  by (simp_all add: layer_visibility_def layers_present_def show_layers_def set_visibility_effect)

lemma handleSvgClick_layers:
  assumes "selectedImageType s \<noteq> ''rscape''" and "selectedImageType s \<noteq> ''rchie''"
      and "layers_present svg"
  shows "handleSvgClick s (Some svg) =
           (s\<lparr> svgToggleState := (if svgToggleState s = 3 then 1 else svgToggleState s + 1) \<rparr>,
            Some (if svgToggleState s = 3 \<or> svgToggleState s = 0
                    then show_layers ''visible'' ''visible'' ''visible'' svg
                  else if svgToggleState s = 1 then show_layers ''hidden'' ''visible'' ''visible'' svg
                  else if svgToggleState s = 2 then show_layers ''visible'' ''hidden'' ''hidden'' svg
                  else svg))"
  using assms by (auto simp: handleSvgClick_def layers_present_def Let_def)

lemma toggle_reset_changed:
  "selectedImageType cur \<noteq> selectedImageType prev \<Longrightarrow>
   svgToggleState (toggle_reset_effect prev cur) = 1"
  by (simp add: toggle_reset_effect_def)

lemma handleImageTypeChange_selected:
  "t \<noteq> selectedImageType s \<Longrightarrow>
   selectedImageType (fst (handleImageTypeChange net cfg t (s, v, hist))) = t"
  by (simp add: handleImageTypeChange_def Let_def split: prod.splits option.splits)

text \<open>
  C6. For a selected type that is neither \<^verbatim>\<open>rscape\<close> nor \<^verbatim>\<open>rchie\<close> and a diagram that has
  the three layers \<^verbatim>\<open>#seq\<close>, \<^verbatim>\<open>#outline\<close> and \<^verbatim>\<open>#pairs\<close>: a click in phase 1 leads to phase 2
  with the sequence labels hidden and outline and pairing lines visible; a click in phase
  2 leads to phase 3 with the sequence labels visible and outline and pairing lines
  hidden; a click in phase 3 leads to phase 1 with all three visible; so three clicks from
  phase 1 end in phase 1 with all three visible. And after a commit in which the selected
  type has changed, in particular after a type switch, the phase is 1.
\<close>

theorem toggle_cycle:
  assumes "selectedImageType s \<noteq> ''rscape''" and "selectedImageType s \<noteq> ''rchie''"
      and "layers_present svg"
  shows "(svgToggleState s = 1 \<longrightarrow>
            (case handleSvgClick s (Some svg) of
               (s', d') \<Rightarrow> svgToggleState s' = 2 \<and> layer_visibility d' = structure_only))
         \<and>
         (svgToggleState s = 2 \<longrightarrow>
            (case handleSvgClick s (Some svg) of
               (s', d') \<Rightarrow> svgToggleState s' = 3 \<and> layer_visibility d' = sequence_only))
         \<and>
         (svgToggleState s = 3 \<longrightarrow>
            (case handleSvgClick s (Some svg) of
               (s', d') \<Rightarrow> svgToggleState s' = 1 \<and> layer_visibility d' = all_visible))
         \<and>
         (svgToggleState s = 1 \<longrightarrow>
            (case handleSvgClick s (Some svg) of
               (s1, d1) \<Rightarrow>
                 (case handleSvgClick s1 d1 of
                    (s2, d2) \<Rightarrow>
                      (case handleSvgClick s2 d2 of
                         (s3, d3) \<Rightarrow>
                           layer_visibility d1 = structure_only \<and>
                           layer_visibility d2 = sequence_only \<and>
                           svgToggleState s3 = 1 \<and> layer_visibility d3 = all_visible))))
         \<and>
         (\<forall>prev. selectedImageType s \<noteq> selectedImageType prev \<longrightarrow>
                 svgToggleState (toggle_reset_effect prev s) = 1)
         \<and>
         (\<forall>t. t \<noteq> selectedImageType s \<longrightarrow>
              svgToggleState
                (toggle_reset_effect s (fst (handleImageTypeChange net cfg t (s, v, hist)))) = 1)"
  (is "?P1 \<and> ?P2 \<and> ?P3 \<and> ?P4 \<and> ?P5 \<and> ?P6")
proof (intro conjI)
  note click = handleSvgClick_layers [OF assms]
  show ?P1 by (simp add: click show_layers_effect [OF assms(3)] structure_only_def)
  show ?P2 by (simp add: click show_layers_effect [OF assms(3)] sequence_only_def)
  show ?P3 by (simp add: click show_layers_effect [OF assms(3)] all_visible_def)
  show ?P4
  proof
    assume p: "svgToggleState s = 1"
    let ?s1 = "s\<lparr> svgToggleState := 2 \<rparr>"
    let ?d1 = "show_layers ''hidden'' ''visible'' ''visible'' svg"
    let ?s2 = "s\<lparr> svgToggleState := 3 \<rparr>"
    let ?d2 = "show_layers ''visible'' ''hidden'' ''hidden'' ?d1"
    let ?s3 = "s\<lparr> svgToggleState := 1 \<rparr>"
    let ?d3 = "show_layers ''visible'' ''visible'' ''visible'' ?d2"
    have l1: "layers_present ?d1" by (rule show_layers_effect(2) [OF assms(3)])
    have l2: "layers_present ?d2" by (rule show_layers_effect(2) [OF l1])
    have c1: "handleSvgClick s (Some svg) = (?s1, Some ?d1)" using p by (simp add: click)
    have c2: "handleSvgClick ?s1 (Some ?d1) = (?s2, Some ?d2)"
      using handleSvgClick_layers [of ?s1 ?d1] assms(1,2) l1 by simp
    have c3: "handleSvgClick ?s2 (Some ?d2) = (?s3, Some ?d3)"
      using handleSvgClick_layers [of ?s2 ?d2] assms(1,2) l2 by simp
    show "case handleSvgClick s (Some svg) of
               (s1, d1) \<Rightarrow>
                 (case handleSvgClick s1 d1 of
                    (s2, d2) \<Rightarrow>
                      (case handleSvgClick s2 d2 of
                         (s3, d3) \<Rightarrow>
                           layer_visibility d1 = structure_only \<and>
                           layer_visibility d2 = sequence_only \<and>
                           svgToggleState s3 = 1 \<and> layer_visibility d3 = all_visible))"
      by (simp add: c1 c2 c3 show_layers_effect(1) [OF assms(3)] show_layers_effect(1) [OF l1]
            show_layers_effect(1) [OF l2] structure_only_def sequence_only_def all_visible_def)
  qed
  show ?P5 by (simp add: toggle_reset_changed)
  show ?P6 using handleImageTypeChange_selected [of _ s net cfg v hist]
    by (simp add: toggle_reset_effect_def)
qed


theorem toggle_cycle_witness:
  "layers_present layered_svg \<and> svgToggleState cons_state = 1 \<and>
   (case handleSvgClick cons_state (Some layered_svg) of
      (s1, d1) \<Rightarrow>
        (case handleSvgClick s1 d1 of
           (s2, d2) \<Rightarrow>
             (case handleSvgClick s2 d2 of
                (s3, d3) \<Rightarrow>
                  layer_visibility d1 = structure_only \<and>
                  layer_visibility d2 = sequence_only \<and>
                  svgToggleState s3 = 1 \<and> layer_visibility d3 = all_visible)))"
proof -
  have h1: "selectedImageType cons_state \<noteq> ''rscape''"
    and h2: "selectedImageType cons_state \<noteq> ''rchie''"
    and p: "svgToggleState cons_state = 1"
    by (simp_all add: cons_state_def initial_state_def)
  have h3: "layers_present layered_svg"
    by (simp add: layers_present_def layered_svg_def querySelector_id_def has_id_def
          getAttribute_def)
  note t = toggle_cycle [OF h1 h2 h3, where net = example_service and cfg = example_config
             and v = initial_viewports and hist = "[]"]
  from t [THEN conjunct2, THEN conjunct2, THEN conjunct2, THEN conjunct1, THEN mp, OF p] h3 p
  show ?thesis by blast
qed


end
